theory Spec2Isabelle
  imports Complex_Main "HOL-Library.AList" "HOL-Library.Multiset"
begin

section \<open>Data model (src/types/index.ts)\<close>

text \<open>
  JavaScript numbers are modelled as \<^typ>\<open>real\<close> where the code computes with fractions
  (token estimates, scores, weights), as \<^typ>\<open>int\<close> for millisecond clock readings and
  as \<^typ>\<open>nat\<close> for counters and capacities. The inputs are never NaN or infinite. On
  such inputs the code produces NaN in one place only, \<open>Math.pow\<close> on a negative base in
  the wait-time score; the values computed from it have the type \<open>jsnumber\<close> below.
  Record fields keep the source's names; a field name used by several interfaces gets
  the interface as a prefix, because Isabelle record fields share one name space.
\<close>

text \<open>
  A number that may be NaN: \<open>None\<close> is NaN. Arithmetic with NaN gives NaN, and every
  comparison with NaN is false.
\<close>

type_synonym jsnumber = "real option"

definition num_times :: "jsnumber \<Rightarrow> real \<Rightarrow> jsnumber" where
  "num_times a w = (case a of None \<Rightarrow> None | Some x \<Rightarrow> Some (x * w))"

definition num_plus :: "jsnumber \<Rightarrow> jsnumber \<Rightarrow> jsnumber" where
  "num_plus a b =
     (case a of
        None \<Rightarrow> None
      | Some x \<Rightarrow> (case b of None \<Rightarrow> None | Some y \<Rightarrow> Some (x + y)))"

definition num_less :: "jsnumber \<Rightarrow> jsnumber \<Rightarrow> bool" where
  "num_less a b =
     (case a of
        None \<Rightarrow> False
      | Some x \<Rightarrow> (case b of None \<Rightarrow> False | Some y \<Rightarrow> x < y))"

definition num_greater :: "jsnumber \<Rightarrow> jsnumber \<Rightarrow> bool" where
  "num_greater a b = num_less b a"

datatype Priority = URGENT | HIGH | NORMAL | LOW

text \<open>The numeric values of the enum: lower value, higher priority.\<close>

fun priorityValue :: "Priority \<Rightarrow> nat" where
  "priorityValue URGENT = 0"
| "priorityValue HIGH = 1"
| "priorityValue NORMAL = 2"
| "priorityValue LOW = 3"

record TokenInfo =
  estimated :: real
  actual :: "real option"
  ti_model :: "string option"

record LLMPayload =
  prompt :: string
  pl_model :: "string option"
  temperature :: "real option"
  maxTokens :: "real option"

record LLMRequest =
  req_id :: string
  req_payload :: LLMPayload
  req_priority :: Priority
  tokenInfo :: TokenInfo
  expectedProcessingTime :: "real option"
  createdAt :: int

record MessageAttributes =
  messageId :: string
  receiptHandle :: string
  enqueuedAt :: int
  receiveCount :: nat
  firstReceivedAt :: "int option"

record QueueMessage =
  msg_id :: string
  msg_payload :: LLMRequest
  attributes :: MessageAttributes

text \<open>The part of the rate limiter's metrics that the code reads.\<close>

record RateWindow =
  used :: real
  available :: real
  rw_limit :: real
  percentage :: real

record RateLimitMetrics =
  rpm :: RateWindow
  tpm :: RateWindow
  efficiency :: real

record Throughput =
  messagesPerMinute :: nat
  tokensPerMinute :: nat

record QueueMetricsReport =
  totalMessages :: nat
  messagesByPriority :: "Priority \<Rightarrow> nat"
  oldestMessageAge :: int
  averageWaitTime :: real
  throughput :: Throughput

record ScoringContext =
  rateLimiterMetrics :: RateLimitMetrics
  queueMetrics :: QueueMetricsReport
  currentTime :: int

record ScoreBreakdown =
  b_priority :: real
  b_efficiency :: real
  b_waitTime :: jsnumber
  b_retry :: real
  b_tokenFit :: real
  b_processingTime :: real

record MessageScore =
  total :: jsnumber
  breakdown :: ScoreBreakdown

record ScoringWeights =
  w_priority :: real
  w_efficiency :: real
  w_waitTime :: real
  w_retry :: real
  w_tokenFit :: real
  w_processingTime :: real

record CustomScorer =
  cs_name :: string
  cs_weight :: real
  calculate :: "QueueMessage \<Rightarrow> ScoringContext \<Rightarrow> real"

record ScoringConfig =
  weights :: "ScoringWeights option"
  customScorers :: "CustomScorer list option"

section \<open>Score calculator (src/utils/message-score-calculator.ts)\<close>

record MessageScoreCalculator =
  calc_weights :: ScoringWeights
  calc_customScorers :: "CustomScorer list"

definition getDefaultWeights :: ScoringWeights where
  "getDefaultWeights =
     \<lparr>w_priority = 0.25, w_efficiency = 0.20, w_waitTime = 0.20,
      w_retry = 0.10, w_tokenFit = 0.15, w_processingTime = 0.10\<rparr>"

definition newMessageScoreCalculator :: "ScoringConfig \<Rightarrow> MessageScoreCalculator" where
  "newMessageScoreCalculator config =
     \<lparr>calc_weights = (case weights config of Some w \<Rightarrow> w | None \<Rightarrow> getDefaultWeights),
      calc_customScorers = (case customScorers config of Some cs \<Rightarrow> cs | None \<Rightarrow> [])\<rparr>"

fun calculatePriorityScore :: "Priority \<Rightarrow> real" where
  "calculatePriorityScore URGENT = 1.0"
| "calculatePriorityScore HIGH = 0.7"
| "calculatePriorityScore NORMAL = 0.4"
| "calculatePriorityScore LOW = 0.1"

definition calculateEfficiencyScore :: "real \<Rightarrow> real \<Rightarrow> real \<Rightarrow> real" where
  "calculateEfficiencyScore estimatedTokens availableTPM tpmLimit =
     (if availableTPM \<le> 0 then 0
      else let utilization = estimatedTokens / availableTPM in
        if utilization \<ge> 0.7 \<and> utilization \<le> 0.9 then 1.0
        else if utilization > 0.9 \<and> utilization \<le> 1.0 then 0.9
        else if utilization > 1.0 then 0
        else utilization / 0.7)"

fun maxWaitTimes :: "Priority \<Rightarrow> real" where
  "maxWaitTimes URGENT = 10 * 1000"
| "maxWaitTimes HIGH = 30 * 1000"
| "maxWaitTimes NORMAL = 60 * 1000"
| "maxWaitTimes LOW = 300 * 1000"

text \<open>
  \<open>Math.pow(score, 0.5)\<close> is NaN for a negative \<open>score\<close>, and the real power \<open>powr\<close>
  otherwise, which is 0 at 0 as in JavaScript.
\<close>

definition calculateWaitTimeScore :: "real \<Rightarrow> Priority \<Rightarrow> jsnumber" where
  "calculateWaitTimeScore waitTimeMs priority =
     (let maxWait = maxWaitTimes priority;
          score = min (waitTimeMs / maxWait) 1.0
      in if priority = URGENT
         then (if score < 0 then None else Some (score powr 0.5))
         else Some score)"

definition calculateRetryPenalty :: "nat \<Rightarrow> real" where
  "calculateRetryPenalty rc = (if rc = 0 then 1.0 else max 0.1 (0.7 ^ rc))"

definition calculateTokenFitScore :: "real \<Rightarrow> real \<Rightarrow> real" where
  "calculateTokenFitScore estimatedTokens availableTPM =
     (if availableTPM \<le> 0 then 0
      else let ratio = estimatedTokens / availableTPM in
        if ratio < 0.1 then ratio * 10
        else if ratio \<ge> 0.1 \<and> ratio \<le> 0.5 then 1.0
        else if ratio > 0.5 \<and> ratio \<le> 1.0 then 1.0 - ((ratio - 0.5) * 0.4)
        else 0)"

definition normalizeProcessingTime :: "real \<Rightarrow> real" where
  "normalizeProcessingTime timeMs =
     (if timeMs \<le> 1000 then 1.0
      else if timeMs \<le> 5000 then 1.0 - ((timeMs - 1000) / 4000 * 0.3)
      else if timeMs \<le> 30000 then 0.7 - ((timeMs - 5000) / 25000 * 0.6)
      else 0.1)"

text \<open>\<open>!expectedProcessingTimeMs\<close> holds for \<open>undefined\<close> and for 0.\<close>

definition calculateProcessingTimeScore :: "real \<Rightarrow> real option \<Rightarrow> real" where
  "calculateProcessingTimeScore estimatedTokens expectedProcessingTimeMs =
     (case expectedProcessingTimeMs of
        None \<Rightarrow> normalizeProcessingTime (estimatedTokens * 10)
      | Some t \<Rightarrow>
          if t = 0 then normalizeProcessingTime (estimatedTokens * 10)
          else normalizeProcessingTime t)"

text \<open>
  The block of \<open>calculateScore\<close> under the comment "Base scores": the six sub-scores
  before any weight is applied, collected in one record.
\<close>

definition baseScores :: "QueueMessage \<Rightarrow> ScoringContext \<Rightarrow> ScoreBreakdown" where
  "baseScores message context =
     (let request = msg_payload message;
          now = currentTime context;
          rlm = rateLimiterMetrics context
      in \<lparr>b_priority = calculatePriorityScore (req_priority request),
          b_efficiency = calculateEfficiencyScore (estimated (tokenInfo request))
                           (available (tpm rlm)) (rw_limit (tpm rlm)),
          b_waitTime = calculateWaitTimeScore
                           (real_of_int (now - enqueuedAt (attributes message)))
                           (req_priority request),
          b_retry = calculateRetryPenalty (receiveCount (attributes message)),
          b_tokenFit = calculateTokenFitScore (estimated (tokenInfo request))
                           (available (tpm rlm)),
          b_processingTime = calculateProcessingTimeScore (estimated (tokenInfo request))
                           (expectedProcessingTime request)\<rparr>)"

definition applyWeights :: "ScoringWeights \<Rightarrow> ScoreBreakdown \<Rightarrow> ScoreBreakdown" where
  "applyWeights w s =
     \<lparr>b_priority = b_priority s * w_priority w,
      b_efficiency = b_efficiency s * w_efficiency w,
      b_waitTime = num_times (b_waitTime s) (w_waitTime w),
      b_retry = b_retry s * w_retry w,
      b_tokenFit = b_tokenFit s * w_tokenFit w,
      b_processingTime = b_processingTime s * w_processingTime w\<rparr>"

text \<open>\<open>Object.values(breakdown)\<close>, in the order the object literal lists its keys.\<close>

definition breakdownValues :: "ScoreBreakdown \<Rightarrow> jsnumber list" where
  "breakdownValues b =
     [Some (b_priority b), Some (b_efficiency b), b_waitTime b, Some (b_retry b),
      Some (b_tokenFit b), Some (b_processingTime b)]"

definition calculateScore ::
  "MessageScoreCalculator \<Rightarrow> QueueMessage \<Rightarrow> ScoringContext \<Rightarrow> MessageScore" where
  "calculateScore calc message context =
     (let bd = applyWeights (calc_weights calc) (baseScores message context);
          customTotal = foldl (\<lambda>acc scorer. acc + calculate scorer message context * cs_weight scorer)
                          0 (calc_customScorers calc);
          tot = num_plus (foldl (\<lambda>sum score. num_plus sum score) (Some 0) (breakdownValues bd))
                  (Some customTotal)
      in \<lparr>total = tot, breakdown = bd\<rparr>)"



section \<open>JavaScript helpers\<close>

text \<open>
  \<open>a || d\<close> on an optional number: \<open>undefined\<close> and 0 are falsy and give the default.
\<close>

definition js_or :: "'a::zero option \<Rightarrow> 'a \<Rightarrow> 'a" where
  "js_or v d = (case v of None \<Rightarrow> d | Some x \<Rightarrow> if x = 0 then d else x)"

text \<open>The truthiness of an optional number, as tested by \<open>v && ...\<close>.\<close>

definition truthy :: "'a::zero option \<Rightarrow> bool" where
  "truthy v = (case v of None \<Rightarrow> False | Some x \<Rightarrow> x \<noteq> 0)"

text \<open>Decimal rendering of numbers inside template strings.\<close>

fun string_of_nat :: "nat \<Rightarrow> string" where
  "string_of_nat n =
     (if n < 10 then [''0123456789'' ! n]
      else string_of_nat (n div 10) @ [''0123456789'' ! (n mod 10)])"

declare string_of_nat.simps [simp del]

definition string_of_int :: "int \<Rightarrow> string" where
  "string_of_int i =
     (if i < 0 then CHR ''-'' # string_of_nat (nat (- i)) else string_of_nat (nat i))"

text \<open>A thrown \<open>Error\<close> with its message.\<close>

datatype error = Error (errorMessage: string)

section \<open>Priority buffer (src/utils/priority-buffer.ts)\<close>

record BufferItem =
  item_message :: QueueMessage
  item_priority :: Priority
  item_score :: "real option"

text \<open>The capacity \<open>maxSize\<close> is a count of items, hence a natural number.\<close>

record PriorityBuffer =
  buffer :: "BufferItem list"
  maxSize :: nat

definition newPriorityBuffer :: "nat \<Rightarrow> PriorityBuffer" where
  "newPriorityBuffer n = \<lparr>buffer = [], maxSize = n\<rparr>"

definition comparePriority :: "Priority \<Rightarrow> Priority \<Rightarrow> int" where
  "comparePriority a b = int (priorityValue a) - int (priorityValue b)"

text \<open>
  \<open>Array.prototype.sort\<close> is stable, and the comparator \<open>a - b\<close> orders by the numeric
  priority: this is the stable \<^const>\<open>sort_key\<close> on that key.
\<close>

definition sortBuffer :: "PriorityBuffer \<Rightarrow> PriorityBuffer" where
  "sortBuffer b = b\<lparr>buffer := sort_key (\<lambda>i. priorityValue (item_priority i)) (buffer b)\<rparr>"

text \<open>
  The loop of \<open>findLowestPriorityIndex\<close>: the items still to visit, the index \<open>i\<close> of the
  first of them, and the running \<open>lowestIndex\<close> and \<open>lowestPriority\<close>.
\<close>

fun findLowestLoop :: "BufferItem list \<Rightarrow> nat \<Rightarrow> nat \<Rightarrow> Priority \<Rightarrow> nat" where
  "findLowestLoop [] i lowestIndex lowestPriority = lowestIndex"
| "findLowestLoop (x # xs) i lowestIndex lowestPriority =
     (if priorityValue (item_priority x) > priorityValue lowestPriority
      then findLowestLoop xs (Suc i) i (item_priority x)
      else findLowestLoop xs (Suc i) lowestIndex lowestPriority)"

definition findLowestPriorityIndex :: "PriorityBuffer \<Rightarrow> int" where
  "findLowestPriorityIndex b =
     (case buffer b of
        [] \<Rightarrow> - 1
      | x # xs \<Rightarrow> int (findLowestLoop xs 1 0 (item_priority x)))"

text \<open>\<open>splice(i, 1)\<close> and \<open>push\<close>.\<close>

definition splice1 :: "nat \<Rightarrow> 'a list \<Rightarrow> 'a list" where
  "splice1 i xs = take i xs @ drop (Suc i) xs"

definition push :: "BufferItem \<Rightarrow> PriorityBuffer \<Rightarrow> PriorityBuffer" where
  "push x b = b\<lparr>buffer := buffer b @ [x]\<rparr>"

definition buffer_add ::
  "QueueMessage \<Rightarrow> Priority \<Rightarrow> real option \<Rightarrow> PriorityBuffer \<Rightarrow> bool \<times> PriorityBuffer" where
  "buffer_add message priority score b =
     (let item = \<lparr>item_message = message, item_priority = priority, item_score = score\<rparr> in
      if length (buffer b) \<ge> maxSize b then
        (let lowestIndex = findLowestPriorityIndex b in
         if lowestIndex \<noteq> - 1 \<and>
            comparePriority priority (item_priority (buffer b ! nat lowestIndex)) < 0
         then (True, sortBuffer (push item (b\<lparr>buffer := splice1 (nat lowestIndex) (buffer b)\<rparr>)))
         else (False, b))
      else (True, sortBuffer (push item b)))"

text \<open>\<open>findIndex\<close> by message id followed by \<open>splice(index, 1)\<close>.\<close>

fun removeById :: "string \<Rightarrow> BufferItem list \<Rightarrow> bool \<times> BufferItem list" where
  "removeById mid [] = (False, [])"
| "removeById mid (x # xs) =
     (if msg_id (item_message x) = mid then (True, xs)
      else (case removeById mid xs of (r, ys) \<Rightarrow> (r, x # ys)))"

definition buffer_remove :: "QueueMessage \<Rightarrow> PriorityBuffer \<Rightarrow> bool \<times> PriorityBuffer" where
  "buffer_remove message b =
     (case removeById (msg_id message) (buffer b) of (r, ys) \<Rightarrow> (r, b\<lparr>buffer := ys\<rparr>))"

definition peekByPriority :: "nat option \<Rightarrow> PriorityBuffer \<Rightarrow> QueueMessage list" where
  "peekByPriority limit b =
     (let resultLimit = js_or limit (length (buffer b))
      in map item_message (take resultLimit (buffer b)))"

definition buffer_size :: "PriorityBuffer \<Rightarrow> nat" where
  "buffer_size b = length (buffer b)"

definition buffer_clear :: "PriorityBuffer \<Rightarrow> PriorityBuffer" where
  "buffer_clear b = b\<lparr>buffer := []\<rparr>"

fun setFirstScore :: "string \<Rightarrow> real \<Rightarrow> BufferItem list \<Rightarrow> bool \<times> BufferItem list" where
  "setFirstScore mid sc [] = (False, [])"
| "setFirstScore mid sc (x # xs) =
     (if msg_id (item_message x) = mid then (True, x\<lparr>item_score := Some sc\<rparr> # xs)
      else (case setFirstScore mid sc xs of (r, ys) \<Rightarrow> (r, x # ys)))"

definition updateScore :: "string \<Rightarrow> real \<Rightarrow> PriorityBuffer \<Rightarrow> bool \<times> PriorityBuffer" where
  "updateScore mid sc b =
     (case setFirstScore mid sc (buffer b) of (r, ys) \<Rightarrow> (r, b\<lparr>buffer := ys\<rparr>))"

definition getAll :: "PriorityBuffer \<Rightarrow> QueueMessage list" where
  "getAll b = map item_message (buffer b)"


section \<open>In-memory storage (src/storage/in-memory.ts)\<close>

text \<open>
  The two JavaScript \<open>Map\<close>s iterate in insertion order, so they are association lists:
  \<open>get\<close> is \<^const>\<open>map_of\<close>, \<open>set\<close> is \<^const>\<open>AList.update\<close> (in place, or appended
  for a new key) and \<open>delete\<close> is \<^const>\<open>AList.delete\<close>. The values of \<open>inFlight\<close>
  are references to stored message objects, of which the code only ever reads the
  immutable \<open>id\<close>; the model stores that id. Every storage operation takes the reading
  \<open>now\<close> of \<open>Date.now()\<close>: the reads of the clock inside one synchronous call are taken
  to return the same millisecond.

  \<open>dequeue\<close> returns shallow copies \<open>{...message}\<close>, which share their \<open>attributes\<close> object
  with the stored record, so a later delivery also changes the attributes seen through an
  earlier copy. The model returns values. The statements about the dispatcher below hold
  for every content of its buffer and in-flight index, or start from an empty buffer, and
  none of them reads the attributes of a copy after a later delivery.
\<close>

record InMemoryMessage =
  im_message :: QueueMessage
  visibilityTimeout :: "int option"
  deleteAt :: "int option"

record InMemoryStorage =
  messages :: "(string \<times> InMemoryMessage) list"
  inFlight :: "(string \<times> string) list"
  messageCounter :: nat
  st_createdAt :: int
  lastModified :: int

definition newInMemoryStorage :: "int \<Rightarrow> InMemoryStorage" where
  "newInMemoryStorage now =
     \<lparr>messages = [], inFlight = [], messageCounter = 0, st_createdAt = now, lastModified = now\<rparr>"

definition storage_enqueue ::
  "int \<Rightarrow> LLMRequest \<Rightarrow> InMemoryStorage \<Rightarrow> QueueMessage \<times> InMemoryStorage" where
  "storage_enqueue now request s =
     (let counter = Suc (messageCounter s);
          mid = ''msg-'' @ string_of_nat counter;
          handle = ''receipt-'' @ mid @ ''-'' @ string_of_int now;
          queueMessage = \<lparr>msg_id = mid, msg_payload = request,
             attributes = \<lparr>messageId = mid, receiptHandle = handle, enqueuedAt = now,
                            receiveCount = 0, firstReceivedAt = None\<rparr>\<rparr>
      in (queueMessage,
          s\<lparr>messageCounter := counter,
            messages := AList.update mid
               \<lparr>im_message = queueMessage, visibilityTimeout = None, deleteAt = None\<rparr>
               (messages s),
            lastModified := now\<rparr>))"

text \<open>One round of the loop "Clean up expired in-flight messages".\<close>

definition reapExpired :: "int \<Rightarrow> InMemoryStorage \<Rightarrow> string \<times> string \<Rightarrow> InMemoryStorage" where
  "reapExpired now s entry =
     (case entry of (handle, mid) \<Rightarrow>
        (case map_of (messages s) mid of
           None \<Rightarrow> s
         | Some inMemMsg \<Rightarrow>
             if truthy (visibilityTimeout inMemMsg) \<and> the (visibilityTimeout inMemMsg) < now
             then s\<lparr>inFlight := AList.delete handle (inFlight s),
                    messages := AList.update mid (inMemMsg\<lparr>visibilityTimeout := None\<rparr>)
                                  (messages s)\<rparr>
             else s))"

text \<open>
  The loop "Find available messages" over the entries of \<open>messages\<close>; \<open>results\<close> is
  the list built so far, and reaching the limit leaves the loop.
\<close>

fun findAvailable ::
  "int \<Rightarrow> int \<Rightarrow> int \<Rightarrow> (string \<times> InMemoryMessage) list \<Rightarrow>
   QueueMessage list \<Rightarrow> InMemoryStorage \<Rightarrow> QueueMessage list \<times> InMemoryStorage" where
  "findAvailable now limit vts [] results s = (results, s)"
| "findAvailable now limit vts ((mid, inMemMsg) # rest) results s =
     (if int (length results) \<ge> limit then (results, s)
      else if truthy (visibilityTimeout inMemMsg) \<and> the (visibilityTimeout inMemMsg) > now
        then findAvailable now limit vts rest results s
      else if truthy (deleteAt inMemMsg) \<and> the (deleteAt inMemMsg) \<le> now
        then findAvailable now limit vts rest results
               (s\<lparr>messages := AList.delete mid (messages s)\<rparr>)
      else
        (let newReceiptHandle = ''receipt-'' @ mid @ ''-'' @ string_of_int now;
             attrs = attributes (im_message inMemMsg);
             attrs' = attrs\<lparr>receiptHandle := newReceiptHandle,
                            receiveCount := Suc (receiveCount attrs),
                            firstReceivedAt :=
                              (case firstReceivedAt attrs of None \<Rightarrow> Some now | Some t \<Rightarrow> Some t)\<rparr>;
             message' = (im_message inMemMsg)\<lparr>attributes := attrs'\<rparr>;
             inMemMsg' = inMemMsg\<lparr>im_message := message',
                                   visibilityTimeout := Some (now + vts * 1000)\<rparr>
         in findAvailable now limit vts rest (results @ [message'])
              (s\<lparr>messages := AList.update mid inMemMsg' (messages s),
                 inFlight := AList.update newReceiptHandle mid (inFlight s)\<rparr>)))"

definition storage_dequeue ::
  "int \<Rightarrow> int \<Rightarrow> int \<Rightarrow> InMemoryStorage \<Rightarrow> QueueMessage list \<times> InMemoryStorage" where
  "storage_dequeue now limit visibilityTimeoutSeconds s =
     (let s1 = foldl (reapExpired now) s (inFlight s)
      in findAvailable now limit visibilityTimeoutSeconds (messages s1) [] s1)"

definition notFound :: "string \<Rightarrow> error" where
  "notFound handle = Error (''Message with receipt handle '' @ handle @ '' not found'')"

definition storage_deleteMessage ::
  "int \<Rightarrow> string \<Rightarrow> InMemoryStorage \<Rightarrow> (error + unit) \<times> InMemoryStorage" where
  "storage_deleteMessage now handle s =
     (case map_of (inFlight s) handle of
        None \<Rightarrow> (Inl (notFound handle), s)
      | Some mid \<Rightarrow>
          (Inr (), s\<lparr>messages := AList.delete mid (messages s),
                     inFlight := AList.delete handle (inFlight s),
                     lastModified := now\<rparr>))"

definition storage_updateVisibilityTimeout ::
  "int \<Rightarrow> string \<Rightarrow> int \<Rightarrow> InMemoryStorage \<Rightarrow> (error + unit) \<times> InMemoryStorage" where
  "storage_updateVisibilityTimeout now handle visibilityTimeoutSeconds s =
     (case map_of (inFlight s) handle of
        None \<Rightarrow> (Inl (notFound handle), s)
      | Some mid \<Rightarrow>
          (case map_of (messages s) mid of
             None \<Rightarrow> (Inr (), s)
           | Some inMemMsg \<Rightarrow>
               (Inr (), s\<lparr>messages := AList.update mid
                   (inMemMsg\<lparr>visibilityTimeout := Some (now + visibilityTimeoutSeconds * 1000)\<rparr>)
                   (messages s)\<rparr>)))"

section \<open>Storage adapter interface (src/storage/types.ts)\<close>

text \<open>
  An adapter over a storage state \<^typ>\<open>'s\<close>: every operation transforms the state and
  either returns its result or throws (a rejected promise is the value \<open>Inl\<close>).
\<close>

record 's QueueStorageAdapter =
  sa_enqueue :: "LLMRequest \<Rightarrow> 's \<Rightarrow> (error + QueueMessage) \<times> 's"
  sa_dequeue :: "int \<Rightarrow> int \<Rightarrow> 's \<Rightarrow> (error + QueueMessage list) \<times> 's"
  sa_deleteMessage :: "string \<Rightarrow> 's \<Rightarrow> (error + unit) \<times> 's"
  sa_updateVisibilityTimeout :: "string \<Rightarrow> int \<Rightarrow> 's \<Rightarrow> (error + unit) \<times> 's"

text \<open>The in-memory storage as an adapter, at the clock reading \<open>now\<close>.\<close>

definition inMemoryAdapter :: "int \<Rightarrow> InMemoryStorage QueueStorageAdapter" where
  "inMemoryAdapter now =
     \<lparr>sa_enqueue = (\<lambda>request s. case storage_enqueue now request s of (m, s') \<Rightarrow> (Inr m, s')),
      sa_dequeue = (\<lambda>limit vts s. case storage_dequeue now limit vts s of (ms, s') \<Rightarrow> (Inr ms, s')),
      sa_deleteMessage = storage_deleteMessage now,
      sa_updateVisibilityTimeout = storage_updateVisibilityTimeout now\<rparr>"

section \<open>Rate limiter interface (@aid-on/llm-throttle, consumed)\<close>

record CanProcessResult =
  allowed :: bool
  availableIn :: "real option"

text \<open>The two queries the dispatcher makes; either may throw.\<close>

record LLMThrottle =
  getMetrics :: "error + RateLimitMetrics"
  canProcess :: "real \<Rightarrow> error + CanProcessResult"


section \<open>Metrics collector (src/utils/metrics-collector.ts)\<close>

datatype MetricType = MT_enqueue | MT_dequeue | MT_complete | MT_failure

record MetricRecord =
  timestamp :: int
  mr_type :: MetricType
  mr_messageId :: string
  mr_priority :: "Priority option"
  processingTimeMs :: "int option"
  mr_errorMessage :: "string option"

record MetricsCollector =
  records :: "MetricRecord list"
  retentionMs :: int
  maxRecords :: nat

text \<open>The constructor's default parameters apply to \<open>undefined\<close> only.\<close>

definition newMetricsCollector :: "int option \<Rightarrow> MetricsCollector" where
  "newMetricsCollector retention =
     \<lparr>records = [],
      retentionMs = (case retention of None \<Rightarrow> 300000 | Some r \<Rightarrow> r),
      maxRecords = 10000\<rparr>"

text \<open>\<open>slice(-n)\<close>: the last \<open>n\<close> elements, and the whole array for \<open>n = 0\<close>.\<close>

definition sliceLast :: "nat \<Rightarrow> 'a list \<Rightarrow> 'a list" where
  "sliceLast n xs = (if n = 0 then xs else drop (length xs - n) xs)"

definition metrics_cleanup :: "int \<Rightarrow> MetricsCollector \<Rightarrow> MetricsCollector" where
  "metrics_cleanup now mc =
     (let cutoff = now - retentionMs mc;
          kept = filter (\<lambda>r. timestamp r > cutoff) (records mc)
      in mc\<lparr>records := (if length kept > maxRecords mc then sliceLast (maxRecords mc) kept
                         else kept)\<rparr>)"

definition addRecord :: "int \<Rightarrow> MetricRecord \<Rightarrow> MetricsCollector \<Rightarrow> MetricsCollector" where
  "addRecord now record mc =
     (let mc1 = mc\<lparr>records := records mc @ [record]\<rparr>
      in if real (length (records mc1)) > real (maxRecords mc1) * 1.2
         then metrics_cleanup now mc1 else mc1)"

definition recordDequeue :: "int \<Rightarrow> QueueMessage \<Rightarrow> MetricsCollector \<Rightarrow> MetricsCollector" where
  "recordDequeue now message mc =
     addRecord now
       \<lparr>timestamp = now, mr_type = MT_dequeue, mr_messageId = msg_id message,
        mr_priority = Some (req_priority (msg_payload message)),
        processingTimeMs = None, mr_errorMessage = None\<rparr> mc"

definition countByPriority :: "MetricRecord list \<Rightarrow> Priority \<Rightarrow> nat" where
  "countByPriority enqueueRecords p =
     length (filter (\<lambda>r. mr_priority r = Some p) enqueueRecords)"

definition getReport :: "int \<Rightarrow> MetricsCollector \<Rightarrow> QueueMetricsReport \<times> MetricsCollector" where
  "getReport now mc =
     (let mc' = metrics_cleanup now mc;
          oneMinuteAgo = now - 60000;
          enqueueRecords = filter (\<lambda>r. mr_type r = MT_enqueue) (records mc');
          oldest = (case enqueueRecords of
                      [] \<Rightarrow> 0
                    | r # rs \<Rightarrow> now - foldl min (timestamp r) (map timestamp rs));
          completeRecords = filter (\<lambda>r. mr_type r = MT_complete) (records mc');
          waits = List.map_filter
                    (\<lambda>c. map_option (\<lambda>e. timestamp c - timestamp e)
                           (find (\<lambda>e. mr_messageId e = mr_messageId c) enqueueRecords))
                    completeRecords;
          totalWaitTime = foldl (+) 0 waits;
          waitTimeCount = length waits;
          average = (if waitTimeCount > 0
                     then real_of_int totalWaitTime / real waitTimeCount else 0);
          recentCompletes = filter (\<lambda>r. timestamp r > oneMinuteAgo) completeRecords;
          perMinute = length recentCompletes
      in (\<lparr>totalMessages = length enqueueRecords,
           messagesByPriority = countByPriority enqueueRecords,
           oldestMessageAge = oldest,
           averageWaitTime = average,
           throughput = \<lparr>messagesPerMinute = perMinute, tokensPerMinute = perMinute * 1000\<rparr>\<rparr>,
          mc'))"

section \<open>Dispatcher (src/llm-queue-dispatcher.ts)\<close>

record LLMQueueDispatcherConfig =
  bufferSize :: "nat option"
  enablePrefetch :: "bool option"
  prefetchInterval :: "nat option"
  maxCandidatesToEvaluate :: "nat option"
  minScoreThreshold :: "real option"
  scoring :: "ScoringConfig option"
  metricsRetentionMs :: "int option"

record InFlightMessage =
  if_message :: QueueMessage
  startedAt :: int
  if_rateLimiter :: LLMThrottle

record ScoredMessage =
  sm_message :: QueueMessage
  sm_score :: MessageScore
  sm_breakdown :: ScoreBreakdown
  waitTimeUntilReady :: real

datatype Factor =
  F_priority | F_efficiency | F_waitTime | F_retry | F_tokenFit | F_processingTime

text \<open>
  The \<open>reason\<close> of a selection is a sentence built from the two factors with the largest
  weighted sub-scores; the model keeps those two factors, in order. When a sub-score is
  NaN the comparator of the sort returns NaN, the order of the result is left to the
  implementation, and the model gives no reason (\<open>None\<close>).
\<close>

record MessageSelection =
  sel_message :: QueueMessage
  sel_score :: MessageScore
  reason :: "Factor list option"

text \<open>
  The handle given to the caller: its three closures are determined by the message and
  the start time of the in-flight entry they capture.
\<close>

record ProcessableMessage =
  pm_message :: QueueMessage
  pm_startedAt :: int

datatype LogLevel = LogDebug | LogInfo | LogWarn | LogError

text \<open>
  The dispatcher's own state. \<open>prefetchTimer\<close> is the period of the running interval
  timer, if any; \<open>logged\<close> collects what was sent to the logger.
\<close>

record LLMQueueDispatcher =
  inFlightMessages :: "(string \<times> InFlightMessage) list"
  prefetchBuffer :: PriorityBuffer
  metrics :: MetricsCollector
  scoreCalculator :: MessageScoreCalculator
  config :: LLMQueueDispatcherConfig
  prefetchTimer :: "nat option"
  d_visibilityTimeout :: int
  logged :: "(LogLevel \<times> string) list"

definition logTo :: "LogLevel \<Rightarrow> string \<Rightarrow> LLMQueueDispatcher \<Rightarrow> LLMQueueDispatcher" where
  "logTo level text d = d\<lparr>logged := logged d @ [(level, text)]\<rparr>"

definition prefetchEnabled :: "LLMQueueDispatcherConfig \<Rightarrow> bool" where
  "prefetchEnabled cfg = (enablePrefetch cfg = Some True)"

definition startPrefetchWorker :: "LLMQueueDispatcher \<Rightarrow> LLMQueueDispatcher" where
  "startPrefetchWorker d =
     (let interval = js_or (prefetchInterval (config d)) 5000
      in d\<lparr>prefetchTimer := Some interval\<rparr>)"

definition newLLMQueueDispatcher :: "LLMQueueDispatcherConfig \<Rightarrow> LLMQueueDispatcher" where
  "newLLMQueueDispatcher cfg =
     (let d = \<lparr>inFlightMessages = [],
               prefetchBuffer = newPriorityBuffer (js_or (bufferSize cfg) 50),
               metrics = newMetricsCollector (metricsRetentionMs cfg),
               scoreCalculator = newMessageScoreCalculator
                  (case scoring cfg of Some sc \<Rightarrow> sc
                   | None \<Rightarrow> \<lparr>weights = None, customScorers = None\<rparr>),
               config = cfg,
               prefetchTimer = None,
               d_visibilityTimeout = 30,
               logged = []\<rparr>
      in if prefetchEnabled cfg then startPrefetchWorker d else d)"

definition getCandidatesFromBuffer :: "LLMQueueDispatcher \<Rightarrow> QueueMessage list" where
  "getCandidatesFromBuffer d =
     (let maxCandidates = js_or (maxCandidatesToEvaluate (config d)) 20
      in peekByPriority (Some maxCandidates) (prefetchBuffer d))"

text \<open>
  The \<open>map\<close> and \<open>filter\<close> of \<open>selectOptimalMessage\<close>: candidates are visited in order, a
  throwing \<open>canProcess\<close> aborts the whole scan, a candidate that is not allowed is dropped.
\<close>

fun scoreCandidates ::
  "LLMThrottle \<Rightarrow> MessageScoreCalculator \<Rightarrow> ScoringContext \<Rightarrow> QueueMessage list \<Rightarrow>
   error + ScoredMessage list" where
  "scoreCandidates rateLimiter calc context [] = Inr []"
| "scoreCandidates rateLimiter calc context (message # rest) =
     (case canProcess rateLimiter (estimated (tokenInfo (msg_payload message))) of
        Inl e \<Rightarrow> Inl e
      | Inr cp \<Rightarrow>
          (case scoreCandidates rateLimiter calc context rest of
             Inl e \<Rightarrow> Inl e
           | Inr scored \<Rightarrow>
               if \<not> allowed cp then Inr scored
               else (let score = calculateScore calc message context
                     in Inr (\<lparr>sm_message = message, sm_score = score,
                               sm_breakdown = breakdown score,
                               waitTimeUntilReady = js_or (availableIn cp) 0\<rparr> # scored))))"

text \<open>\<open>reduce\<close> without an initial value, on a non-empty array.\<close>

definition reduceBest :: "ScoredMessage \<Rightarrow> ScoredMessage list \<Rightarrow> ScoredMessage" where
  "reduceBest first rest =
     foldl (\<lambda>best current. if num_greater (total (sm_score current)) (total (sm_score best))
                            then current else best) first rest"

definition breakdownEntries :: "ScoreBreakdown \<Rightarrow> (Factor \<times> jsnumber) list" where
  "breakdownEntries b =
     [(F_priority, Some (b_priority b)), (F_efficiency, Some (b_efficiency b)),
      (F_waitTime, b_waitTime b),
      (F_retry, Some (b_retry b)), (F_tokenFit, Some (b_tokenFit b)),
      (F_processingTime, Some (b_processingTime b))]"

text \<open>
  The stable sort with comparator \<open>b - a\<close> is the stable sort on the negated value, as
  long as no value is NaN.
\<close>

definition explainSelection :: "ScoredMessage \<Rightarrow> Factor list option" where
  "explainSelection selected =
     (let entries = breakdownEntries (breakdown (sm_score selected))
      in if list_all (\<lambda>entry. snd entry \<noteq> None) entries
         then Some (map fst (take 2 (sort_key (\<lambda>entry. - the (snd entry)) entries)))
         else None)"

definition selectOptimalMessage ::
  "int \<Rightarrow> LLMThrottle \<Rightarrow> QueueMessage list \<Rightarrow> LLMQueueDispatcher \<Rightarrow>
   (error + MessageSelection option) \<times> LLMQueueDispatcher" where
  "selectOptimalMessage now rateLimiter candidates d =
     (case getMetrics rateLimiter of
        Inl e \<Rightarrow> (Inl e, d)
      | Inr rlMetrics \<Rightarrow>
          (case getReport now (metrics d) of (report, mc) \<Rightarrow>
             (let d' = d\<lparr>metrics := mc\<rparr>;
                  context = \<lparr>rateLimiterMetrics = rlMetrics, queueMetrics = report,
                             currentTime = now\<rparr>
              in case scoreCandidates rateLimiter (scoreCalculator d) context candidates of
                   Inl e \<Rightarrow> (Inl e, d')
                 | Inr [] \<Rightarrow> (Inr None, d')
                 | Inr (first # rest) \<Rightarrow>
                     (let selected = reduceBest first rest
                      in if num_less (total (sm_score selected))
                              (Some (js_or (minScoreThreshold (config d)) 0.1))
                         then (Inr None, d')
                         else (Inr (Some \<lparr>sel_message = sm_message selected,
                                          sel_score = sm_score selected,
                                          reason = explainSelection selected\<rparr>), d')))))"

text \<open>
  \<open>prepareForProcessing\<close> is an async function whose body calls neither the storage nor
  the rate limiter; its promise is modelled with the same result type as the others.
\<close>

definition prepareForProcessing ::
  "int \<Rightarrow> QueueMessage \<Rightarrow> LLMThrottle \<Rightarrow> LLMQueueDispatcher \<Rightarrow>
   (error + ProcessableMessage) \<times> LLMQueueDispatcher" where
  "prepareForProcessing now message rateLimiter d =
     (let inFlightEntry = \<lparr>if_message = message, startedAt = now, if_rateLimiter = rateLimiter\<rparr>
      in (Inr \<lparr>pm_message = message, pm_startedAt = startedAt inFlightEntry\<rparr>,
          d\<lparr>inFlightMessages := AList.update (msg_id message) inFlightEntry (inFlightMessages d),
            metrics := recordDequeue now message (metrics d)\<rparr>))"

text \<open>
  In \<open>fetchAndProcessDirectly\<close> the storage call and the selection are inside the
  \<open>try\<close>; the promise of \<open>prepareForProcessing\<close> is returned without \<open>await\<close>, so its
  rejection would pass the \<open>catch\<close>.
\<close>

definition fetchAndProcessDirectly ::
  "'s QueueStorageAdapter \<Rightarrow> int \<Rightarrow> LLMThrottle \<Rightarrow> LLMQueueDispatcher \<times> 's \<Rightarrow>
   (error + ProcessableMessage option) \<times> LLMQueueDispatcher \<times> 's" where
  "fetchAndProcessDirectly storage now rateLimiter ds =
     (case ds of (d, s) \<Rightarrow>
        (case sa_dequeue storage 10 (d_visibilityTimeout d) s of
           (Inl e, s') \<Rightarrow>
             (Inr None, logTo LogError (''Storage fetch error: '' @ errorMessage e) d, s')
         | (Inr [], s') \<Rightarrow> (Inr None, d, s')
         | (Inr (m # ms), s') \<Rightarrow>
             (case selectOptimalMessage now rateLimiter (m # ms) d of
                (Inl e, d') \<Rightarrow>
                  (Inr None, logTo LogError (''Storage fetch error: '' @ errorMessage e) d', s')
              | (Inr None, d') \<Rightarrow> (Inr None, d', s')
              | (Inr (Some selection), d') \<Rightarrow>
                  (case prepareForProcessing now (sel_message selection) rateLimiter d' of
                     (Inl e, d'') \<Rightarrow> (Inl e, d'', s')
                   | (Inr pm, d'') \<Rightarrow> (Inr (Some pm), d'', s')))))"

text \<open>
  \<open>const needed = this.config.bufferSize || 50 - this.prefetchBuffer.size()\<close>:
  subtraction binds tighter than \<open>||\<close>, so the right operand of \<open>||\<close> is \<open>50 - size\<close>.
\<close>

definition needed :: "LLMQueueDispatcher \<Rightarrow> int" where
  "needed d =
     js_or (map_option int (bufferSize (config d))) (50 - int (buffer_size (prefetchBuffer d)))"

definition addAll :: "QueueMessage list \<Rightarrow> PriorityBuffer \<Rightarrow> PriorityBuffer" where
  "addAll ms b =
     foldl (\<lambda>buf message. snd (buffer_add message (req_priority (msg_payload message)) None buf))
       b ms"

definition prefetchMessages ::
  "'s QueueStorageAdapter \<Rightarrow> LLMQueueDispatcher \<times> 's \<Rightarrow> LLMQueueDispatcher \<times> 's" where
  "prefetchMessages storage ds =
     (case ds of (d, s) \<Rightarrow>
        if needed d \<le> 0 then (d, s)
        else
          (case sa_dequeue storage (needed d) (d_visibilityTimeout d) s of
             (Inl e, s') \<Rightarrow> (logTo LogError (''Prefetch error: '' @ errorMessage e) d, s')
           | (Inr ms, s') \<Rightarrow>
               (let d' = d\<lparr>prefetchBuffer := addAll ms (prefetchBuffer d)\<rparr>
                in (if length ms > 0
                    then logTo LogDebug (''Prefetched '' @ string_of_nat (length ms) @
                                         '' messages into buffer'') d'
                    else d', s'))))"

text \<open>One tick of the timer started by \<open>startPrefetchWorker\<close>.\<close>

definition renewVisibility ::
  "'s QueueStorageAdapter \<Rightarrow> LLMQueueDispatcher \<times> 's \<Rightarrow> QueueMessage \<Rightarrow> LLMQueueDispatcher \<times> 's" where
  "renewVisibility storage ds message =
     (case ds of (d, s) \<Rightarrow>
        (case sa_updateVisibilityTimeout storage (receiptHandle (attributes message))
                (d_visibilityTimeout d) s of
           (Inl e, s') \<Rightarrow>
             (logTo LogWarn (''Failed to update visibility for message '' @ msg_id message)
                (d\<lparr>prefetchBuffer := snd (buffer_remove message (prefetchBuffer d))\<rparr>), s')
         | (Inr u, s') \<Rightarrow> (d, s')))"

definition prefetchTick ::
  "'s QueueStorageAdapter \<Rightarrow> LLMQueueDispatcher \<times> 's \<Rightarrow> LLMQueueDispatcher \<times> 's" where
  "prefetchTick storage ds =
     (case prefetchMessages storage ds of (d, s) \<Rightarrow>
        foldl (renewVisibility storage) (d, s) (getAll (prefetchBuffer d)))"

text \<open>
  \<open>dequeue\<close>: everything up to the selection runs inside the \<open>try\<close>, and the direct fetch
  is awaited there; the promise of \<open>prepareForProcessing\<close> is returned without \<open>await\<close>.
  The result \<open>Inl\<close> is a rejected promise, \<open>Inr None\<close> is \<open>null\<close>.
\<close>

definition dispatcher_dequeue ::
  "'s QueueStorageAdapter \<Rightarrow> int \<Rightarrow> LLMThrottle \<Rightarrow> LLMQueueDispatcher \<times> 's \<Rightarrow>
   (error + ProcessableMessage option) \<times> LLMQueueDispatcher \<times> 's" where
  "dispatcher_dequeue storage now rateLimiter ds =
     (case (if buffer_size (prefetchBuffer (fst ds)) < 10 \<and> \<not> prefetchEnabled (config (fst ds))
            then prefetchMessages storage ds else ds) of
        (d, s) \<Rightarrow>
          (let candidates = getCandidatesFromBuffer d in
           if length candidates = 0 \<and> \<not> prefetchEnabled (config d) then
             (case fetchAndProcessDirectly storage now rateLimiter (d, s) of
                (Inl e, d', s') \<Rightarrow>
                  (Inr None, logTo LogError (''Dequeue error: '' @ errorMessage e) d', s')
              | (Inr r, d', s') \<Rightarrow> (Inr r, d', s'))
           else
             (case selectOptimalMessage now rateLimiter candidates d of
                (Inl e, d') \<Rightarrow>
                  (Inr None, logTo LogError (''Dequeue error: '' @ errorMessage e) d', s)
              | (Inr None, d') \<Rightarrow> (Inr None, d', s)
              | (Inr (Some selection), d') \<Rightarrow>
                  (case prepareForProcessing now (sel_message selection) rateLimiter
                          (d'\<lparr>prefetchBuffer :=
                                 snd (buffer_remove (sel_message selection) (prefetchBuffer d'))\<rparr>) of
                     (Inl e, d'') \<Rightarrow> (Inl e, d'', s)
                   | (Inr pm, d'') \<Rightarrow> (Inr (Some pm), d'', s)))))"


section \<open>Notions used in the statements\<close>

text \<open>A candidate is admissible when \<open>canProcess\<close> returns for its estimate and allows it.\<close>

definition admissible :: "LLMThrottle \<Rightarrow> QueueMessage \<Rightarrow> bool" where
  "admissible rateLimiter message =
     (case canProcess rateLimiter (estimated (tokenInfo (msg_payload message))) of
        Inl e \<Rightarrow> False
      | Inr cp \<Rightarrow> allowed cp)"

text \<open>\<open>canProcess\<close> returns (does not throw) for the candidate's estimate.\<close>

definition answers :: "LLMThrottle \<Rightarrow> QueueMessage \<Rightarrow> bool" where
  "answers rateLimiter message =
     (case canProcess rateLimiter (estimated (tokenInfo (msg_payload message))) of
        Inl e \<Rightarrow> False
      | Inr cp \<Rightarrow> True)"

text \<open>The message a selection returns, if any.\<close>

definition selectedMessage :: "error + MessageSelection option \<Rightarrow> QueueMessage option" where
  "selectedMessage r =
     (case r of
        Inl e \<Rightarrow> None
      | Inr None \<Rightarrow> None
      | Inr (Some selection) \<Rightarrow> Some (sel_message selection))"

text \<open>The scoring context that \<open>selectOptimalMessage\<close> builds at time \<open>now\<close>.\<close>

definition contextAt :: "int \<Rightarrow> RateLimitMetrics \<Rightarrow> LLMQueueDispatcher \<Rightarrow> ScoringContext" where
  "contextAt now rlMetrics d =
     \<lparr>rateLimiterMetrics = rlMetrics, queueMetrics = fst (getReport now (metrics d)),
      currentTime = now\<rparr>"

text \<open>
  The receive count of a stored message, and the test by which the storage treats a
  message as in flight (hidden) at time \<open>now\<close>.
\<close>

definition receiveCountOf :: "InMemoryStorage \<Rightarrow> string \<Rightarrow> nat option" where
  "receiveCountOf s mid =
     (case map_of (messages s) mid of
        None \<Rightarrow> None
      | Some inMemMsg \<Rightarrow> Some (receiveCount (attributes (im_message inMemMsg))))"

definition hiddenAt :: "int \<Rightarrow> InMemoryStorage \<Rightarrow> string \<Rightarrow> bool" where
  "hiddenAt now s mid =
     (case map_of (messages s) mid of
        None \<Rightarrow> False
      | Some inMemMsg \<Rightarrow>
          truthy (visibilityTimeout inMemMsg) \<and> the (visibilityTimeout inMemMsg) > now)"

text \<open>The receipt handle a stored message currently carries.\<close>

definition currentHandle :: "InMemoryStorage \<Rightarrow> string \<Rightarrow> string option" where
  "currentHandle s mid =
     (case map_of (messages s) mid of
        None \<Rightarrow> None
      | Some inMemMsg \<Rightarrow> Some (receiptHandle (attributes (im_message inMemMsg))))"

section \<open>Concrete values for the closed theorems\<close>

definition exampleRequest :: "string \<Rightarrow> Priority \<Rightarrow> real \<Rightarrow> LLMRequest" where
  "exampleRequest name p tokens =
     \<lparr>req_id = name,
      req_payload = \<lparr>prompt = ''Test prompt'', pl_model = None, temperature = None,
                      maxTokens = None\<rparr>,
      req_priority = p,
      tokenInfo = \<lparr>estimated = tokens, actual = None, ti_model = None\<rparr>,
      expectedProcessingTime = None, createdAt = 0\<rparr>"

definition exampleMessage :: "string \<Rightarrow> Priority \<Rightarrow> real \<Rightarrow> QueueMessage" where
  "exampleMessage name p tokens =
     \<lparr>msg_id = name, msg_payload = exampleRequest name p tokens,
      attributes = \<lparr>messageId = name, receiptHandle = ''receipt-'' @ name, enqueuedAt = 0,
                     receiveCount = 0, firstReceivedAt = None\<rparr>\<rparr>"

definition exampleWindow :: RateWindow where
  "exampleWindow = \<lparr>used = 500, available = 1500, rw_limit = 2000, percentage = 25\<rparr>"

definition exampleMetrics :: RateLimitMetrics where
  "exampleMetrics = \<lparr>rpm = exampleWindow, tpm = exampleWindow, efficiency = 0.85\<rparr>"

definition exampleContext :: ScoringContext where
  "exampleContext =
     \<lparr>rateLimiterMetrics = exampleMetrics,
      queueMetrics = fst (getReport 30000 (newMetricsCollector None)),
      currentTime = 30000\<rparr>"

definition allowAll :: LLMThrottle where
  "allowAll = \<lparr>getMetrics = Inr exampleMetrics,
               canProcess = (\<lambda>tokens. Inr \<lparr>allowed = True, availableIn = None\<rparr>)\<rparr>"

definition denyAll :: LLMThrottle where
  "denyAll = \<lparr>getMetrics = Inr exampleMetrics,
              canProcess = (\<lambda>tokens. Inr \<lparr>allowed = False, availableIn = Some 5000\<rparr>)\<rparr>"

definition defaultConfig :: LLMQueueDispatcherConfig where
  "defaultConfig =
     \<lparr>bufferSize = None, enablePrefetch = None, prefetchInterval = None,
      maxCandidatesToEvaluate = None, minScoreThreshold = None, scoring = None,
      metricsRetentionMs = None\<rparr>"


text \<open>Five NORMAL entries in a buffer of capacity 5.\<close>

definition fullBuffer :: PriorityBuffer where
  "fullBuffer =
     \<lparr>buffer = map (\<lambda>name. \<lparr>item_message = exampleMessage name NORMAL 100,
                              item_priority = NORMAL, item_score = None\<rparr>)
                  [''0'', ''1'', ''2'', ''3'', ''4''],
      maxSize = 5\<rparr>"

text \<open>
  An URGENT message whose \<open>enqueuedAt\<close> (31000) is later than the time of the selection
  (30000), as with a storage on another clock or after the clock was set back.
\<close>

definition lateUrgent :: QueueMessage where
  "lateUrgent =
     (exampleMessage ''late'' URGENT 100)
       \<lparr>attributes := (attributes (exampleMessage ''late'' URGENT 100))\<lparr>enqueuedAt := 31000\<rparr>\<rparr>"

text \<open>A dispatcher with the default weights and \<open>minScoreThreshold: 0.9\<close>.\<close>

definition strictDispatcher :: LLMQueueDispatcher where
  "strictDispatcher = newLLMQueueDispatcher (defaultConfig\<lparr>minScoreThreshold := Some 0.9\<rparr>)"

definition exampleCandidates :: "QueueMessage list" where
  "exampleCandidates =
     [exampleMessage ''low'' LOW 100, exampleMessage ''urgent'' URGENT 100,
      exampleMessage ''normal'' NORMAL 100]"

text \<open>A storage and a rate limiter whose every operation throws.\<close>

definition throwingAdapter :: "unit QueueStorageAdapter" where
  "throwingAdapter =
     \<lparr>sa_enqueue = (\<lambda>request s. (Inl (Error ''Storage error''), s)),
      sa_dequeue = (\<lambda>limit vts s. (Inl (Error ''Storage error''), s)),
      sa_deleteMessage = (\<lambda>handle s. (Inl (Error ''Storage error''), s)),
      sa_updateVisibilityTimeout = (\<lambda>handle vts s. (Inl (Error ''Storage error''), s))\<rparr>"

definition throwingLimiter :: LLMThrottle where
  "throwingLimiter =
     \<lparr>getMetrics = Inl (Error ''Rate limiter error''),
      canProcess = (\<lambda>tokens. Inl (Error ''Rate limiter error''))\<rparr>"

text \<open>An in-memory storage holding one visible message, enqueued at time 0.\<close>

definition oneVisible :: InMemoryStorage where
  "oneVisible = snd (storage_enqueue 0 (exampleRequest ''test-1'' HIGH 100) (newInMemoryStorage 0))"

text \<open>
  A \<open>dequeue\<close> at time 1000 on a fresh dispatcher with the default configuration over
  that storage, with a rate limiter that denies every request.
\<close>

definition afterDeniedDequeue ::
  "(error + ProcessableMessage option) \<times> LLMQueueDispatcher \<times> InMemoryStorage" where
  "afterDeniedDequeue =
     dispatcher_dequeue (inMemoryAdapter 1000) 1000 denyAll
       (newLLMQueueDispatcher defaultConfig, oneVisible)"

text \<open>
  A storage that returns no message and records the arguments of every \<open>dequeue\<close> it
  receives (the other operations do nothing).
\<close>

definition recordingAdapter :: "(int \<times> int) list QueueStorageAdapter" where
  "recordingAdapter =
     \<lparr>sa_enqueue = (\<lambda>request calls. (Inl (Error ''not supported''), calls)),
      sa_dequeue = (\<lambda>limit vts calls. (Inr [], calls @ [(limit, vts)])),
      sa_deleteMessage = (\<lambda>handle calls. (Inr (), calls)),
      sa_updateVisibilityTimeout = (\<lambda>handle vts calls. (Inr (), calls))\<rparr>"

text \<open>
  Dispatchers configured with \<open>bufferSize: 5\<close> whose buffer holds three, respectively
  five, messages.
\<close>

definition threeBuffered :: LLMQueueDispatcher where
  "threeBuffered =
     (newLLMQueueDispatcher (defaultConfig\<lparr>bufferSize := Some 5\<rparr>))
       \<lparr>prefetchBuffer := \<lparr>buffer = take 3 (buffer fullBuffer), maxSize = 5\<rparr>\<rparr>"

definition fiveBuffered :: LLMQueueDispatcher where
  "fiveBuffered =
     (newLLMQueueDispatcher (defaultConfig\<lparr>bufferSize := Some 5\<rparr>))
       \<lparr>prefetchBuffer := fullBuffer\<rparr>"

text \<open>A message enqueued at time 1000, before any delivery.\<close>

definition enqueuedAt1000 :: "QueueMessage \<times> InMemoryStorage" where
  "enqueuedAt1000 =
     storage_enqueue 1000 (exampleRequest ''test-1'' NORMAL 100) (newInMemoryStorage 1000)"

text \<open>
  The message of \<open>oneVisible\<close> delivered at time 1000 with a visibility timeout of one
  second, and delivered again at time 2000, the very millisecond its timeout ends.
\<close>

definition firstDelivery :: "QueueMessage list \<times> InMemoryStorage" where
  "firstDelivery = storage_dequeue 1000 1 1 oneVisible"

definition secondDelivery :: "QueueMessage list \<times> InMemoryStorage" where
  "secondDelivery = storage_dequeue 2000 1 30 (snd firstDelivery)"
section \<open>Properties of the score calculator\<close>

lemma calculatePriorityScore_range:
  "0 \<le> calculatePriorityScore p \<and> calculatePriorityScore p \<le> 1"
  by (cases p) simp_all

lemma efficiency_of_utilization:
  fixes u :: real
  assumes "0 < u"
  shows "0 \<le> (if u \<ge> 0.7 \<and> u \<le> 0.9 then 1.0
        else if u > 0.9 \<and> u \<le> 1.0 then 0.9
        else if u > 1.0 then 0
        else u / 0.7) \<and> (if u \<ge> 0.7 \<and> u \<le> 0.9 then 1.0
        else if u > 0.9 \<and> u \<le> 1.0 then 0.9
        else if u > 1.0 then 0
        else u / 0.7) \<le> (1::real)"
  using assms by auto

lemma calculateEfficiencyScore_range:
  assumes "0 < est"
  shows "0 \<le> calculateEfficiencyScore est av lm \<and> calculateEfficiencyScore est av lm \<le> 1"
proof (cases "av \<le> 0")
  case True
  then show ?thesis by (simp add: calculateEfficiencyScore_def)
next
  case False
  define u where "u = est / av"
  from False assms have "0 < u" by (simp add: u_def)
  from efficiency_of_utilization [OF this] False show ?thesis
    unfolding calculateEfficiencyScore_def Let_def u_def by simp
qed

lemma maxWaitTimes_pos: "0 < maxWaitTimes p"
  by (cases p) simp_all

lemma calculateWaitTimeScore_range:
  assumes "0 \<le> w"
  shows "\<exists>v. calculateWaitTimeScore w p = Some v \<and> 0 \<le> v \<and> v \<le> 1"
proof -
  define s where "s = min (w / maxWaitTimes p) 1"
  have s: "0 \<le> s" "s \<le> 1"
    using assms maxWaitTimes_pos [of p] by (simp_all add: s_def)
  have "\<not> s < 0" using s(1) by simp
  then have eq: "calculateWaitTimeScore w p = Some (if p = URGENT then s powr 0.5 else s)"
    unfolding calculateWaitTimeScore_def Let_def s_def by (cases p) simp_all
  have "0 \<le> s powr 0.5" by simp
  moreover have "s powr 0.5 \<le> 1"
    using s by (simp add: powr_le1)
  ultimately show ?thesis
    using s unfolding eq by simp
qed

lemma retry_positive: "0 < n \<Longrightarrow> calculateRetryPenalty n = max 0.1 (0.7 ^ n)"
  unfolding calculateRetryPenalty_def by (simp only: if_False less_numeral_extra(3) neq0_conv [symmetric])

lemma retry_floor: "0.1 \<le> calculateRetryPenalty n"
proof (cases "n = 0")
  case True
  then show ?thesis by (simp add: calculateRetryPenalty_def)
next
  case False
  have "(0.1::real) \<le> max 0.1 (0.7 ^ n)" by (rule max.cobounded1)
  with False show ?thesis by (simp only: retry_positive neq0_conv)
qed

lemma retry_le_one: "calculateRetryPenalty n \<le> 1"
proof -
  have "(0.7::real) ^ n \<le> 1" by (rule power_le_one) simp_all
  then show ?thesis by (simp add: calculateRetryPenalty_def)
qed

lemma calculateRetryPenalty_range:
  "0 \<le> calculateRetryPenalty n \<and> calculateRetryPenalty n \<le> 1"
  using retry_floor [of n] retry_le_one [of n] by simp

lemma tokenFit_of_ratio:
  fixes r :: real
  assumes "0 < r"
  shows "0 \<le> (if r < 0.1 then r * 10
        else if r \<ge> 0.1 \<and> r \<le> 0.5 then 1.0
        else if r > 0.5 \<and> r \<le> 1.0 then 1.0 - ((r - 0.5) * 0.4)
        else 0) \<and> (if r < 0.1 then r * 10
        else if r \<ge> 0.1 \<and> r \<le> 0.5 then 1.0
        else if r > 0.5 \<and> r \<le> 1.0 then 1.0 - ((r - 0.5) * 0.4)
        else 0) \<le> (1::real)"
  using assms by auto

lemma calculateTokenFitScore_range:
  assumes "0 < est"
  shows "0 \<le> calculateTokenFitScore est av \<and> calculateTokenFitScore est av \<le> 1"
proof (cases "av \<le> 0")
  case True
  then show ?thesis by (simp add: calculateTokenFitScore_def)
next
  case False
  define r where "r = est / av"
  from False assms have "0 < r" by (simp add: r_def)
  from tokenFit_of_ratio [OF this] False show ?thesis
    unfolding calculateTokenFitScore_def Let_def r_def by simp
qed

lemma normalizeProcessingTime_range:
  "0 \<le> normalizeProcessingTime t \<and> normalizeProcessingTime t \<le> 1"
  unfolding normalizeProcessingTime_def by (auto simp: field_simps)

lemma calculateProcessingTimeScore_range:
  "0 \<le> calculateProcessingTimeScore est e \<and> calculateProcessingTimeScore est e \<le> 1"
  using normalizeProcessingTime_range
  by (simp add: calculateProcessingTimeScore_def split: option.split)

lemma breakdown_calculateScore:
  "breakdown (calculateScore calc message context) =
     applyWeights (calc_weights calc) (baseScores message context)"
  by (simp add: calculateScore_def Let_def)

text \<open>
  C8. For a message with a positive token estimate that was enqueued no later than the
  context's current time, each of the six sub-scores that \<open>calculateScore\<close> computes
  lies in [0, 1] before it is multiplied by its weight (the wait-time sub-score, the
  only one that could be NaN, is a number in that interval); the breakdown of the score
  is these sub-scores times the weights.
\<close>

theorem sub_scores_in_unit_interval:
  assumes "0 < estimated (tokenInfo (msg_payload message))"
    and "enqueuedAt (attributes message) \<le> currentTime context"
  shows "breakdown (calculateScore calc message context) =
           applyWeights (calc_weights calc) (baseScores message context) \<and>
         0 \<le> b_priority (baseScores message context) \<and>
         b_priority (baseScores message context) \<le> 1 \<and>
         0 \<le> b_efficiency (baseScores message context) \<and>
         b_efficiency (baseScores message context) \<le> 1 \<and>
         (\<exists>v. b_waitTime (baseScores message context) = Some v \<and> 0 \<le> v \<and> v \<le> 1) \<and>
         0 \<le> b_retry (baseScores message context) \<and>
         b_retry (baseScores message context) \<le> 1 \<and>
         0 \<le> b_tokenFit (baseScores message context) \<and>
         b_tokenFit (baseScores message context) \<le> 1 \<and>
         0 \<le> b_processingTime (baseScores message context) \<and>
         b_processingTime (baseScores message context) \<le> 1"
proof -
  from assms(2)
  have w: "0 \<le> real_of_int (currentTime context - enqueuedAt (attributes message))"
    by simp
  show ?thesis
    using breakdown_calculateScore [of calc message "context"]
      calculatePriorityScore_range
      calculateEfficiencyScore_range [OF assms(1)]
      calculateWaitTimeScore_range [OF w]
      calculateRetryPenalty_range
      calculateTokenFitScore_range [OF assms(1)]
      calculateProcessingTimeScore_range
    by (simp add: baseScores_def Let_def)
qed

theorem sub_scores_in_unit_interval_witness:
  "0 < estimated (tokenInfo (msg_payload (exampleMessage ''m1'' URGENT 100))) \<and>
   enqueuedAt (attributes (exampleMessage ''m1'' URGENT 100)) \<le> currentTime exampleContext \<and>
   (\<exists>v. b_waitTime (baseScores (exampleMessage ''m1'' URGENT 100) exampleContext) = Some v \<and>
        0 \<le> v \<and> v \<le> 1) \<and>
   0 \<le> b_efficiency (baseScores (exampleMessage ''m1'' URGENT 100) exampleContext) \<and>
   b_efficiency (baseScores (exampleMessage ''m1'' URGENT 100) exampleContext) \<le> 1"
proof -
  have h1: "0 < estimated (tokenInfo (msg_payload (exampleMessage ''m1'' URGENT 100)))"
    by (simp add: exampleMessage_def exampleRequest_def)
  have h2: "enqueuedAt (attributes (exampleMessage ''m1'' URGENT 100)) \<le> currentTime exampleContext"
    by (simp add: exampleMessage_def exampleContext_def)
  show ?thesis
    using h1 h2 sub_scores_in_unit_interval [OF h1 h2, of "newMessageScoreCalculator \<lparr>weights = None, customScorers = None\<rparr>"]
    by simp
qed

text \<open>
  C9. The retry penalty is 1 at receive count 0 and \<open>max(0.1, 0.7^n)\<close> from 1 on; it
  never increases with the receive count and never falls below 0.1.
\<close>

theorem retry_penalty_monotone:
  "calculateRetryPenalty 0 = 1 \<and>
   (1 \<le> k \<longrightarrow> calculateRetryPenalty k = max 0.1 (0.7 ^ k)) \<and>
   (m \<le> n \<longrightarrow> calculateRetryPenalty n \<le> calculateRetryPenalty m) \<and>
   0.1 \<le> calculateRetryPenalty n"
proof -
  have mono: "calculateRetryPenalty n \<le> calculateRetryPenalty m" if "m \<le> n"
  proof (cases "m = 0")
    case True
    then show ?thesis using retry_le_one [of n] by (simp add: calculateRetryPenalty_def)
  next
    case False
    with that have pos: "0 < m" "0 < n" by simp_all
    have "(0.7::real) ^ n \<le> 0.7 ^ m"
      using that by (intro power_decreasing) simp_all
    then have "max (0.1::real) (0.7 ^ n) \<le> max 0.1 (0.7 ^ m)"
      by (intro max.mono order_refl)
    then show ?thesis by (simp only: retry_positive [OF pos(1)] retry_positive [OF pos(2)])
  qed
  have zero: "calculateRetryPenalty 0 = 1"
    by (simp add: calculateRetryPenalty_def)
  have pos: "1 \<le> k \<longrightarrow> calculateRetryPenalty k = max 0.1 (0.7 ^ k)"
    using retry_positive [of k] by (simp only: Suc_le_eq One_nat_def) blast
  from zero pos mono retry_floor [of n] show ?thesis by blast
qed

theorem retry_penalty_monotone_witness:
  "calculateRetryPenalty 0 = 1 \<and> (1::nat) \<le> 2 \<and>
   calculateRetryPenalty 2 = max 0.1 (0.7 ^ 2) \<and> (1::nat) \<le> 3 \<and>
   calculateRetryPenalty 3 \<le> calculateRetryPenalty 1 \<and> 0.1 \<le> calculateRetryPenalty 3"
  using retry_penalty_monotone [of 2 1 3] by simp



section \<open>Properties of the priority buffer\<close>

lemma findLowestLoop_spec:
  assumes "li < length pre" and "i = length pre" and "item_priority (pre ! li) = lp"
    and "\<forall>x\<in>set pre. priorityValue (item_priority x) \<le> priorityValue lp"
  shows "findLowestLoop xs i li lp < length (pre @ xs) \<and>
         (\<forall>x\<in>set (pre @ xs). priorityValue (item_priority x)
             \<le> priorityValue (item_priority ((pre @ xs) ! findLowestLoop xs i li lp)))"
  using assms
proof (induction xs arbitrary: pre i li lp)
  case Nil
  then show ?case by simp
next
  case (Cons x xs)
  show ?case
  proof (cases "priorityValue (item_priority x) > priorityValue lp")
    case True
    have "findLowestLoop xs (Suc i) i (item_priority x) < length ((pre @ [x]) @ xs) \<and>
         (\<forall>y\<in>set ((pre @ [x]) @ xs). priorityValue (item_priority y)
             \<le> priorityValue (item_priority (((pre @ [x]) @ xs) ! findLowestLoop xs (Suc i) i (item_priority x))))"
    proof (rule Cons.IH)
      show "i < length (pre @ [x])" using Cons.prems(2) by simp
      show "Suc i = length (pre @ [x])" using Cons.prems(2) by simp
      show "item_priority ((pre @ [x]) ! i) = item_priority x"
        using Cons.prems(2) by simp
      show "\<forall>y\<in>set (pre @ [x]). priorityValue (item_priority y) \<le> priorityValue (item_priority x)"
        using Cons.prems(4) True by auto
    qed
    with True show ?thesis by simp
  next
    case False
    have "findLowestLoop xs (Suc i) li lp < length ((pre @ [x]) @ xs) \<and>
         (\<forall>y\<in>set ((pre @ [x]) @ xs). priorityValue (item_priority y)
             \<le> priorityValue (item_priority (((pre @ [x]) @ xs) ! findLowestLoop xs (Suc i) li lp)))"
    proof (rule Cons.IH)
      show "li < length (pre @ [x])" using Cons.prems(1) by simp
      show "Suc i = length (pre @ [x])" using Cons.prems(2) by simp
      show "item_priority ((pre @ [x]) ! li) = lp"
        using Cons.prems(1,3) by (simp add: nth_append)
      show "\<forall>y\<in>set (pre @ [x]). priorityValue (item_priority y) \<le> priorityValue lp"
        using Cons.prems(4) False by auto
    qed
    with False show ?thesis by simp
  qed
qed

lemma findLowestPriorityIndex_spec:
  assumes "buffer b \<noteq> []"
  shows "\<exists>r. findLowestPriorityIndex b = int r \<and> r < length (buffer b) \<and>
           (\<forall>x\<in>set (buffer b). priorityValue (item_priority x)
               \<le> priorityValue (item_priority (buffer b ! r)))"
proof -
  from assms obtain x xs where b: "buffer b = x # xs" by (cases "buffer b") auto
  have "findLowestLoop xs 1 0 (item_priority x) < length ([x] @ xs) \<and>
         (\<forall>y\<in>set ([x] @ xs). priorityValue (item_priority y)
             \<le> priorityValue (item_priority (([x] @ xs) ! findLowestLoop xs 1 0 (item_priority x))))"
    by (rule findLowestLoop_spec) simp_all
  then show ?thesis
    by (intro exI [of _ "findLowestLoop xs 1 0 (item_priority x)"])
       (simp add: findLowestPriorityIndex_def b)
qed

lemma findLowestPriorityIndex_empty:
  "buffer b = [] \<Longrightarrow> findLowestPriorityIndex b = - 1"
  by (simp add: findLowestPriorityIndex_def)

lemma mset_splice1:
  "i < length xs \<Longrightarrow> mset (splice1 i xs) = mset xs - {#xs ! i#}"
proof -
  assume i: "i < length xs"
  then have "xs = take i xs @ xs ! i # drop (Suc i) xs" by (rule id_take_nth_drop)
  then have "mset xs = add_mset (xs ! i) (mset (splice1 i xs))"
    by (metis splice1_def mset.simps(2) mset_append union_mset_add_mset_right)
  then show ?thesis by simp
qed

lemma length_splice1: "i < length xs \<Longrightarrow> length (splice1 i xs) = length xs - 1"
  by (auto simp: splice1_def)

lemma sortBuffer_push:
  "buffer (sortBuffer (push x b)) = sort_key (\<lambda>i. priorityValue (item_priority i)) (buffer b @ [x])"
  "maxSize (sortBuffer (push x b)) = maxSize b"
  by (simp_all add: sortBuffer_def push_def)

lemma buffer_add_room:
  assumes "length (buffer b) < maxSize b"
  shows "buffer_add m p sc b =
     (True, sortBuffer (push \<lparr>item_message = m, item_priority = p, item_score = sc\<rparr> b))"
  using assms by (simp add: buffer_add_def)

lemma buffer_add_full:
  assumes "maxSize b \<le> length (buffer b)"
  shows "(buffer b = [] \<longrightarrow> buffer_add m p sc b = (False, b)) \<and>
     (buffer b \<noteq> [] \<longrightarrow> (\<exists>r < length (buffer b).
        (\<forall>x\<in>set (buffer b). priorityValue (item_priority x)
               \<le> priorityValue (item_priority (buffer b ! r))) \<and>
        buffer_add m p sc b =
          (if priorityValue p < priorityValue (item_priority (buffer b ! r))
           then (True, sortBuffer (push \<lparr>item_message = m, item_priority = p, item_score = sc\<rparr>
                   (b\<lparr>buffer := splice1 r (buffer b)\<rparr>)))
           else (False, b))))"
proof (cases "buffer b = []")
  case True
  with assms show ?thesis
    by (simp add: buffer_add_def findLowestPriorityIndex_empty)
next
  case False
  from findLowestPriorityIndex_spec [OF False] obtain r where
    r: "findLowestPriorityIndex b = int r" "r < length (buffer b)"
       "\<forall>x\<in>set (buffer b). priorityValue (item_priority x)
               \<le> priorityValue (item_priority (buffer b ! r))" by blast
  have "buffer_add m p sc b =
          (if priorityValue p < priorityValue (item_priority (buffer b ! r))
           then (True, sortBuffer (push \<lparr>item_message = m, item_priority = p, item_score = sc\<rparr>
                   (b\<lparr>buffer := splice1 r (buffer b)\<rparr>)))
           else (False, b))"
    using assms r(1) by (simp add: buffer_add_def comparePriority_def Let_def)
  with r(2,3) False show ?thesis by blast
qed

lemma removeById_length: "length (snd (removeById mid xs)) \<le> length xs"
  by (induction xs) (auto split: prod.splits)

lemma setFirstScore_length: "length (snd (setFirstScore mid sc xs)) = length xs"
  by (induction xs) (auto split: prod.splits)


lemma buffer_remove_length:
  "length (buffer (snd (buffer_remove m b))) \<le> length (buffer b) \<and>
   maxSize (snd (buffer_remove m b)) = maxSize b"
  using removeById_length [of "msg_id m" "buffer b"]
  by (cases "removeById (msg_id m) (buffer b)") (simp add: buffer_remove_def)

lemma updateScore_length:
  "length (buffer (snd (updateScore mid sc b))) = length (buffer b) \<and>
   maxSize (snd (updateScore mid sc b)) = maxSize b"
  using setFirstScore_length [of mid sc "buffer b"]
  by (cases "setFirstScore mid sc (buffer b)") (simp add: updateScore_def)

lemma buffer_add_length:
  "length (buffer (snd (buffer_add m p sc b))) \<le> max (length (buffer b)) (maxSize b) \<and>
   maxSize (snd (buffer_add m p sc b)) = maxSize b"
proof (cases "length (buffer b) < maxSize b")
  case True
  then show ?thesis by (simp add: buffer_add_room sortBuffer_push)
next
  case False
  then have full: "maxSize b \<le> length (buffer b)" by simp
  show ?thesis
  proof (cases "buffer b = []")
    case True
    with buffer_add_full [OF full, of m p sc] show ?thesis by simp
  next
    case False
    with buffer_add_full [OF full, of m p sc] obtain r where
      r: "r < length (buffer b)"
      "buffer_add m p sc b =
          (if priorityValue p < priorityValue (item_priority (buffer b ! r))
           then (True, sortBuffer (push \<lparr>item_message = m, item_priority = p, item_score = sc\<rparr>
                   (b\<lparr>buffer := splice1 r (buffer b)\<rparr>)))
           else (False, b))" by blast
    from r(1) have "length (splice1 r (buffer b)) = length (buffer b) - 1"
      by (rule length_splice1)
    with r(1) have "Suc (length (splice1 r (buffer b))) = length (buffer b)" by simp
    with r(2) show ?thesis by (simp add: sortBuffer_push)
  qed
qed

text \<open>
  C5. \<open>add\<close> on a buffer with room inserts the newcomer and returns true. On a full
  buffer it evicts exactly one occupant of the numerically largest priority and inserts the
  newcomer, returning true, when the newcomer's priority is strictly smaller in number
  than that occupant's; otherwise (ties included) it returns false and leaves the buffer
  as it was. A successful \<open>add\<close> leaves the buffer sorted by priority, and no operation
  makes the size exceed \<open>maxSize\<close>.
\<close>

theorem priority_buffer_add:
  "(length (buffer b) < maxSize b \<longrightarrow>
      fst (buffer_add m p sc b) \<and>
      mset (buffer (snd (buffer_add m p sc b))) =
        add_mset \<lparr>item_message = m, item_priority = p, item_score = sc\<rparr> (mset (buffer b))) \<and>
   (length (buffer b) = maxSize b \<and> buffer b \<noteq> [] \<and>
    priorityValue p < Max ((\<lambda>i. priorityValue (item_priority i)) ` set (buffer b)) \<longrightarrow>
      fst (buffer_add m p sc b) \<and>
      (\<exists>v\<in>set (buffer b).
         priorityValue (item_priority v) =
           Max ((\<lambda>i. priorityValue (item_priority i)) ` set (buffer b)) \<and>
         mset (buffer (snd (buffer_add m p sc b))) =
           add_mset \<lparr>item_message = m, item_priority = p, item_score = sc\<rparr>
             (mset (buffer b) - {#v#})) \<and>
      length (buffer (snd (buffer_add m p sc b))) = maxSize b) \<and>
   (length (buffer b) = maxSize b \<and>
    (buffer b = [] \<or>
     Max ((\<lambda>i. priorityValue (item_priority i)) ` set (buffer b)) \<le> priorityValue p) \<longrightarrow>
      \<not> fst (buffer_add m p sc b) \<and> snd (buffer_add m p sc b) = b) \<and>
   (fst (buffer_add m p sc b) \<longrightarrow>
      sorted (map (\<lambda>i. priorityValue (item_priority i)) (buffer (snd (buffer_add m p sc b))))) \<and>
   buffer_size (newPriorityBuffer n) \<le> maxSize (newPriorityBuffer n) \<and>
   (buffer_size b \<le> maxSize b \<longrightarrow>
      buffer_size (snd (buffer_add m p sc b)) \<le> maxSize (snd (buffer_add m p sc b)) \<and>
      buffer_size (snd (buffer_remove m b)) \<le> maxSize (snd (buffer_remove m b)) \<and>
      buffer_size (snd (updateScore mid x b)) \<le> maxSize (snd (updateScore mid x b)) \<and>
      buffer_size (buffer_clear b) \<le> maxSize (buffer_clear b))"
  (is "?room \<and> ?evict \<and> ?reject \<and> ?sorted \<and> ?init \<and> ?bound")
proof -
  let ?f = "\<lambda>i. priorityValue (item_priority i)"
  let ?item = "\<lparr>item_message = m, item_priority = p, item_score = sc\<rparr>"
  have room: ?room
    by (simp add: buffer_add_room sortBuffer_push)
  have full: "?evict \<and> ?reject"
  proof (cases "length (buffer b) = maxSize b")
    case False
    then show ?thesis by simp
  next
    case True
    then have le: "maxSize b \<le> length (buffer b)" by simp
    show ?thesis
    proof (cases "buffer b = []")
      case True
      with buffer_add_full [OF le, of m p sc] show ?thesis by simp
    next
      case False
      with buffer_add_full [OF le, of m p sc] obtain r where
        r: "r < length (buffer b)"
        "\<forall>x\<in>set (buffer b). ?f x \<le> ?f (buffer b ! r)"
        "buffer_add m p sc b =
          (if priorityValue p < ?f (buffer b ! r)
           then (True, sortBuffer (push ?item (b\<lparr>buffer := splice1 r (buffer b)\<rparr>)))
           else (False, b))" by blast
      have mx: "Max (?f ` set (buffer b)) = ?f (buffer b ! r)"
        using r(1,2) by (intro Max_eqI) auto
      show ?thesis
      proof (cases "priorityValue p < ?f (buffer b ! r)")
        case lt: True
        have "mset (buffer (snd (buffer_add m p sc b))) =
                add_mset ?item (mset (buffer b) - {#buffer b ! r#})"
          using lt r(1,3) by (simp add: sortBuffer_push mset_splice1)
        moreover have "length (buffer (snd (buffer_add m p sc b))) = maxSize b"
          using lt r(1,3) True by (simp add: sortBuffer_push length_splice1)
        moreover have "buffer b ! r \<in> set (buffer b)" using r(1) by simp
        ultimately show ?thesis using lt r(3) mx False by auto
      next
        case ge: False
        with r(3) mx False show ?thesis by simp
      qed
    qed
  qed
  have sorted: ?sorted
  proof
    assume ok: "fst (buffer_add m p sc b)"
    have "\<exists>c. snd (buffer_add m p sc b) = sortBuffer c"
      using ok by (auto simp: buffer_add_def Let_def split: if_splits)
    then obtain c where "snd (buffer_add m p sc b) = sortBuffer c" ..
    then show "sorted (map ?f (buffer (snd (buffer_add m p sc b))))"
      by (simp add: sortBuffer_def)
  qed
  have init: ?init by (simp add: newPriorityBuffer_def buffer_size_def)
  have bound: ?bound
    using buffer_add_length [of m p sc b] buffer_remove_length [of m b]
      updateScore_length [of mid x b]
    by (auto simp: buffer_size_def buffer_clear_def max_def split: if_splits)
  from room full sorted init bound show ?thesis by blast
qed


theorem priority_buffer_add_witness:
  "length (buffer (newPriorityBuffer 5)) < maxSize (newPriorityBuffer 5) \<and>
   fst (buffer_add (exampleMessage ''first'' LOW 100) LOW None (newPriorityBuffer 5)) \<and>
   length (buffer fullBuffer) = maxSize fullBuffer \<and> buffer fullBuffer \<noteq> [] \<and>
   priorityValue URGENT < Max ((\<lambda>i. priorityValue (item_priority i)) ` set (buffer fullBuffer)) \<and>
   fst (buffer_add (exampleMessage ''high'' URGENT 100) URGENT None fullBuffer) \<and>
   length (buffer (snd (buffer_add (exampleMessage ''high'' URGENT 100) URGENT None fullBuffer))) = 5 \<and>
   Max ((\<lambda>i. priorityValue (item_priority i)) ` set (buffer fullBuffer)) \<le> priorityValue NORMAL \<and>
   \<not> fst (buffer_add (exampleMessage ''tie'' NORMAL 100) NORMAL None fullBuffer) \<and>
   snd (buffer_add (exampleMessage ''tie'' NORMAL 100) NORMAL None fullBuffer) = fullBuffer \<and>
   buffer_size fullBuffer \<le> maxSize fullBuffer \<and>
   buffer_size (snd (buffer_add (exampleMessage ''low'' LOW 100) LOW None fullBuffer)) \<le> 5"
proof -
  have mx: "Max ((\<lambda>i. priorityValue (item_priority i)) ` set (buffer fullBuffer)) = 2"
    by (simp add: fullBuffer_def)
  have full: "length (buffer fullBuffer) = maxSize fullBuffer" "buffer fullBuffer \<noteq> []"
    "maxSize fullBuffer = 5" "buffer_size fullBuffer \<le> maxSize fullBuffer"
    by (simp_all add: fullBuffer_def buffer_size_def)
  have room: "length (buffer (newPriorityBuffer 5)) < maxSize (newPriorityBuffer 5)"
    by (simp add: newPriorityBuffer_def)
  show ?thesis
    using room mx full
      priority_buffer_add [of "newPriorityBuffer 5" "exampleMessage ''first'' LOW 100" LOW None]
      priority_buffer_add [of fullBuffer "exampleMessage ''high'' URGENT 100" URGENT None]
      priority_buffer_add [of fullBuffer "exampleMessage ''tie'' NORMAL 100" NORMAL None]
      priority_buffer_add [of fullBuffer "exampleMessage ''low'' LOW 100" LOW None]
    by simp
qed


section \<open>Properties of the selection\<close>

lemma scoreCandidates_answers:
  assumes "\<forall>m\<in>set cands. answers rl m"
  shows "\<exists>scored. scoreCandidates rl calc ctx cands = Inr scored \<and>
           map sm_message scored = filter (admissible rl) cands \<and>
           (\<forall>s\<in>set scored. sm_score s = calculateScore calc (sm_message s) ctx)"
  using assms
proof (induction cands)
  case Nil
  then show ?case by simp
next
  case (Cons m ms)
  then obtain scored where s: "scoreCandidates rl calc ctx ms = Inr scored"
    "map sm_message scored = filter (admissible rl) ms"
    "\<forall>s\<in>set scored. sm_score s = calculateScore calc (sm_message s) ctx"
    by auto
  from Cons.prems obtain cp where
    cp: "canProcess rl (estimated (tokenInfo (msg_payload m))) = Inr cp"
    by (auto simp: answers_def split: sum.splits)
  have adm: "admissible rl m = allowed cp"
    by (simp add: admissible_def cp)
  show ?case
    using s cp adm by (simp add: Let_def)
qed

lemma reduce_first_max:
  fixes k :: "'a \<Rightarrow> real"
  shows "find (\<lambda>s. k s = Max (k ` set (b # ys))) (b # ys) =
           Some (foldl (\<lambda>best current. if k current > k best then current else best) b ys)"
proof (induction ys arbitrary: b)
  case Nil
  then show ?case by simp
next
  case (Cons y ys)
  let ?step = "\<lambda>best current. if k current > k best then current else best"
  define M where "M = Max (k ` set (b # y # ys))"
  have Mb: "k b \<le> M" and My: "k y \<le> M"
    unfolding M_def by (intro Max_ge; auto)+
  show ?case
  proof (cases "k y > k b")
    case True
    have "M = max (k b) (Max (k ` set (y # ys)))"
      unfolding M_def by simp
    moreover have "k y \<le> Max (k ` set (y # ys))" by (intro Max_ge) auto
    ultimately have M: "M = Max (k ` set (y # ys))" using True by linarith
    from True My have nb: "k b \<noteq> M" by linarith
    have "find (\<lambda>s. k s = M) (b # y # ys) = find (\<lambda>s. k s = M) (y # ys)"
      using nb by simp
    also have "\<dots> = Some (foldl ?step y ys)"
      unfolding M by (rule Cons.IH)
    finally have "find (\<lambda>s. k s = M) (b # y # ys) = Some (foldl ?step b (y # ys))"
      using True by simp
    then show ?thesis unfolding M_def .
  next
    case False
    have kb: "k b \<le> Max (k ` set (b # ys))" by (intro Max_ge) auto
    have "M \<in> k ` set (b # y # ys)"
      unfolding M_def by (intro Max_in) auto
    then obtain z where z: "z \<in> set (b # y # ys)" "M = k z" by blast
    have "k z \<le> Max (k ` set (b # ys))"
    proof (cases "z \<in> set (b # ys)")
      case True
      then show ?thesis by (intro Max_ge) auto
    next
      case nz: False
      with z(1) have "z = y" by auto
      then have "k z = k y" by simp
      with False kb show ?thesis by linarith
    qed
    moreover have "Max (k ` set (b # ys)) \<le> M"
      unfolding M_def by (intro Max_mono) auto
    ultimately have M: "M = Max (k ` set (b # ys))" using z(2) by linarith
    have IH: "find (\<lambda>s. k s = M) (b # ys) = Some (foldl ?step b ys)"
      unfolding M by (rule Cons.IH)
    have "find (\<lambda>s. k s = M) (b # y # ys) = Some (foldl ?step b (y # ys))"
    proof (cases "k b = M")
      case True
      with IH False show ?thesis by simp
    next
      case nb: False
      with Mb False have "k y \<noteq> M" by linarith
      with nb IH False show ?thesis by simp
    qed
    then show ?thesis unfolding M_def .
  qed
qed


lemma find_map_option:
  "find P (map f xs) = map_option f (find (\<lambda>x. P (f x)) xs)"
  by (induction xs) auto

lemma num_less_Some [simp]: "num_less (Some x) (Some y) = (x < y)"
  by (simp add: num_less_def)

lemma num_less_NaN [simp]: "num_less None b = False" "num_less a None = False"
  by (simp_all add: num_less_def split: option.splits)

lemma num_greater_Some [simp]: "num_greater (Some x) (Some y) = (x > y)"
  by (simp add: num_greater_def)

lemma num_greater_NaN [simp]: "num_greater None b = False" "num_greater a None = False"
  by (simp_all add: num_greater_def)

lemma total_is_number:
  assumes "enqueuedAt (attributes message) \<le> currentTime context"
  shows "\<exists>t. total (calculateScore calc message context) = Some t"
proof -
  from assms
  have "0 \<le> real_of_int (currentTime context - enqueuedAt (attributes message))" by simp
  from calculateWaitTimeScore_range [OF this, of "req_priority (msg_payload message)"]
  obtain v where "calculateWaitTimeScore
      (real_of_int (currentTime context - enqueuedAt (attributes message)))
      (req_priority (msg_payload message)) = Some v" by blast
  then show ?thesis
    by (simp add: calculateScore_def applyWeights_def baseScores_def breakdownValues_def
          num_plus_def num_times_def Let_def)
qed

lemma reduceBest_numbers:
  assumes "\<forall>s\<in>set (first # rest). total (sm_score s) = Some (k s)"
  shows "reduceBest first rest =
           foldl (\<lambda>best current. if k current > k best then current else best) first rest"
  using assms unfolding reduceBest_def
proof (induction rest arbitrary: first)
  case Nil
  then show ?case by simp
next
  case (Cons y ys)
  let ?b = "if k y > k first then y else first"
  have step: "(if num_greater (total (sm_score y)) (total (sm_score first)) then y else first) = ?b"
    using Cons.prems by simp
  have "\<forall>s\<in>set (?b # ys). total (sm_score s) = Some (k s)"
    using Cons.prems by simp
  from Cons.IH [OF this] step show ?case by simp
qed

lemma selectOptimalMessage_unfold:
  assumes "getMetrics rl = Inr rlMetrics"
    and "scoreCandidates rl (scoreCalculator d) (contextAt now rlMetrics d) candidates = Inr scored"
  shows "fst (selectOptimalMessage now rl candidates d) =
     (case scored of
        [] \<Rightarrow> Inr None
      | first # rest \<Rightarrow>
          if num_less (total (sm_score (reduceBest first rest)))
               (Some (js_or (minScoreThreshold (config d)) 0.1))
          then Inr None
          else Inr (Some \<lparr>sel_message = sm_message (reduceBest first rest),
                           sel_score = sm_score (reduceBest first rest),
                           reason = explainSelection (reduceBest first rest)\<rparr>))"
proof -
  obtain report mc where g: "getReport now (metrics d) = (report, mc)"
    by (cases "getReport now (metrics d)")
  then have c: "contextAt now rlMetrics d =
      \<lparr>rateLimiterMetrics = rlMetrics, queueMetrics = report, currentTime = now\<rparr>"
    by (simp add: contextAt_def)
  show ?thesis
    using assms(2) unfolding c
    by (cases scored) (simp_all add: selectOptimalMessage_def assms(1) g Let_def)
qed

text \<open>
  What holds of the selection when the rate limiter's queries return and no candidate's
  total is NaN (\<open>tot\<close> gives the totals): the candidates that \<open>canProcess\<close> allows are
  kept; with none the result is null; otherwise the winner is the first admissible
  candidate, in candidate order, whose total is the maximum, and the result is null when
  that total is below \<open>minScoreThreshold || 0.1\<close> and the winner with its score otherwise.
\<close>

lemma select_first_maximum:
  assumes "getMetrics rl = Inr rlMetrics"
    and "\<forall>m\<in>set candidates. answers rl m"
    and "\<forall>m\<in>set candidates.
           total (calculateScore (scoreCalculator d) m (contextAt now rlMetrics d)) = Some (tot m)"
  shows "let ctx = contextAt now rlMetrics d;
             adm = filter (admissible rl) candidates;
             result = fst (selectOptimalMessage now rl candidates d)
         in (adm = [] \<longrightarrow> result = Inr None) \<and>
            (adm \<noteq> [] \<longrightarrow>
               (\<exists>w. find (\<lambda>m. tot m = Max (tot ` set adm)) adm = Some w \<and>
                    (\<forall>m\<in>set adm. tot m \<le> tot w) \<and>
                    (tot w < js_or (minScoreThreshold (config d)) 0.1 \<longrightarrow> result = Inr None) \<and>
                    (\<not> tot w < js_or (minScoreThreshold (config d)) 0.1 \<longrightarrow>
                       (\<exists>sel. result = Inr (Some sel) \<and> sel_message sel = w \<and>
                              sel_score sel = calculateScore (scoreCalculator d) w ctx)))) \<and>
            (adm \<noteq> [] \<and>
             Max (tot ` set adm) < (case minScoreThreshold (config d) of None \<Rightarrow> 0.1 | Some t \<Rightarrow> t)
               \<longrightarrow> result = Inr None)"
proof -
  define ctx where "ctx = contextAt now rlMetrics d"
  define adm where "adm = filter (admissible rl) candidates"
  define result where "result = fst (selectOptimalMessage now rl candidates d)"
  define thr where "thr = js_or (minScoreThreshold (config d)) 0.1"
  let ?k = "\<lambda>s. tot (sm_message s)"
  from scoreCandidates_answers [OF assms(2), of "scoreCalculator d" ctx]
  obtain scored where sc: "scoreCandidates rl (scoreCalculator d) ctx candidates = Inr scored"
    "map sm_message scored = adm"
    "\<forall>s\<in>set scored. sm_score s = calculateScore (scoreCalculator d) (sm_message s) ctx"
    unfolding adm_def by blast
  have res: "result =
     (case scored of
        [] \<Rightarrow> Inr None
      | first # rest \<Rightarrow>
          if num_less (total (sm_score (reduceBest first rest))) (Some thr)
          then Inr None
          else Inr (Some \<lparr>sel_message = sm_message (reduceBest first rest),
                           sel_score = sm_score (reduceBest first rest),
                           reason = explainSelection (reduceBest first rest)\<rparr>))"
    unfolding result_def thr_def
    by (rule selectOptimalMessage_unfold [OF assms(1)]) (use sc(1) in \<open>simp add: ctx_def\<close>)
  have ktot: "total (sm_score s) = Some (?k s)" if "s \<in> set scored" for s
  proof -
    from that have "sm_message s \<in> set (map sm_message scored)" by simp
    with sc(2) have "sm_message s \<in> set candidates" by (simp add: adm_def)
    with assms(3) sc(3) that show ?thesis by (simp add: ctx_def)
  qed
  have empty: "adm = [] \<longrightarrow> result = Inr None"
    using sc(2) res by (cases scored) auto
  have nonempty: "\<exists>w. find (\<lambda>m. tot m = Max (tot ` set adm)) adm = Some w \<and>
                    (\<forall>m\<in>set adm. tot m \<le> tot w) \<and>
                    (tot w < thr \<longrightarrow> result = Inr None) \<and>
                    (\<not> tot w < thr \<longrightarrow>
                       (\<exists>sel. result = Inr (Some sel) \<and> sel_message sel = w \<and>
                              sel_score sel = calculateScore (scoreCalculator d) w ctx)) \<and>
                    tot w = Max (tot ` set adm)"
    if ne: "adm \<noteq> []"
  proof -
    from ne sc(2) obtain first rest where fr: "scored = first # rest"
      by (cases scored) auto
    define best where "best = reduceBest first rest"
    have best_eq: "best =
        foldl (\<lambda>best current. if ?k current > ?k best then current else best) first rest"
      unfolding best_def using ktot by (intro reduceBest_numbers) (simp add: fr)
    have img: "?k ` set scored = tot ` set adm"
    proof -
      have "?k ` set scored = tot ` set (map sm_message scored)"
        by (simp add: image_image)
      then show ?thesis using sc(2) by simp
    qed
    have f1: "find (\<lambda>s. ?k s = Max (?k ` set scored)) scored = Some best"
      unfolding fr best_eq by (rule reduce_first_max)
    then have bmem: "best \<in> set scored" and bmax: "?k best = Max (?k ` set scored)"
      by (auto simp: find_Some_iff)
    have "find (\<lambda>m. tot m = Max (tot ` set adm)) (map sm_message scored) =
          map_option sm_message (find (\<lambda>s. tot (sm_message s) = Max (tot ` set adm)) scored)"
      by (rule find_map_option)
    with f1 sc(2) img have f3: "find (\<lambda>m. tot m = Max (tot ` set adm)) adm = Some (sm_message best)"
      by simp
    have wmax: "tot (sm_message best) = Max (tot ` set adm)"
      using bmax img by simp
    have ge: "\<forall>m\<in>set adm. tot m \<le> tot (sm_message best)"
      unfolding wmax by (auto intro: Max_ge)
    have kb: "total (sm_score best) = Some (tot (sm_message best))" by (rule ktot [OF bmem])
    have r1: "tot (sm_message best) < thr \<longrightarrow> result = Inr None"
      using res kb by (simp add: fr best_def [symmetric])
    have r2: "\<not> tot (sm_message best) < thr \<longrightarrow>
                (\<exists>sel. result = Inr (Some sel) \<and> sel_message sel = sm_message best \<and>
                   sel_score sel = calculateScore (scoreCalculator d) (sm_message best) ctx)"
    proof -
      have "sm_score best = calculateScore (scoreCalculator d) (sm_message best) ctx"
        using sc(3) bmem by blast
      with res kb show ?thesis by (simp add: fr best_def [symmetric])
    qed
    from f3 ge r1 r2 wmax show ?thesis by blast
  qed
  have thr_le: "thr \<ge> (case minScoreThreshold (config d) of None \<Rightarrow> 0.1 | Some t \<Rightarrow> t)"
    unfolding thr_def js_or_def by (simp split: option.split)
  have below: "adm \<noteq> [] \<and>
       Max (tot ` set adm) < (case minScoreThreshold (config d) of None \<Rightarrow> 0.1 | Some t \<Rightarrow> t)
         \<longrightarrow> result = Inr None"
  proof
    assume a: "adm \<noteq> [] \<and>
       Max (tot ` set adm) < (case minScoreThreshold (config d) of None \<Rightarrow> 0.1 | Some t \<Rightarrow> t)"
    with nonempty obtain w where w: "tot w < thr \<longrightarrow> result = Inr None"
      "tot w = Max (tot ` set adm)" by blast
    from a w(2) thr_le have "tot w < thr" by linarith
    with w(1) show "result = Inr None" by simp
  qed
  have "(adm = [] \<longrightarrow> result = Inr None) \<and>
            (adm \<noteq> [] \<longrightarrow>
               (\<exists>w. find (\<lambda>m. tot m = Max (tot ` set adm)) adm = Some w \<and>
                    (\<forall>m\<in>set adm. tot m \<le> tot w) \<and>
                    (tot w < thr \<longrightarrow> result = Inr None) \<and>
                    (\<not> tot w < thr \<longrightarrow>
                       (\<exists>sel. result = Inr (Some sel) \<and> sel_message sel = w \<and>
                              sel_score sel = calculateScore (scoreCalculator d) w ctx)))) \<and>
            (adm \<noteq> [] \<and>
             Max (tot ` set adm) < (case minScoreThreshold (config d) of None \<Rightarrow> 0.1 | Some t \<Rightarrow> t)
               \<longrightarrow> result = Inr None)"
    using empty nonempty below by blast
  then show ?thesis
    unfolding Let_def ctx_def adm_def result_def thr_def .
qed

lemma select_first_maximum_example:
  "\<exists>w. find (\<lambda>m. the (total (calculateScore (scoreCalculator (newLLMQueueDispatcher defaultConfig)) m
                         (contextAt 30000 exampleMetrics (newLLMQueueDispatcher defaultConfig)))) =
                    Max ((\<lambda>m. the (total (calculateScore
                              (scoreCalculator (newLLMQueueDispatcher defaultConfig)) m
                              (contextAt 30000 exampleMetrics (newLLMQueueDispatcher defaultConfig))))) `
                         set (filter (admissible allowAll) exampleCandidates)))
               (filter (admissible allowAll) exampleCandidates) = Some w"
proof -
  let ?d = "newLLMQueueDispatcher defaultConfig"
  let ?tot = "\<lambda>m. the (total (calculateScore (scoreCalculator ?d) m
                         (contextAt 30000 exampleMetrics ?d)))"
  have h1: "getMetrics allowAll = Inr exampleMetrics"
    by (simp add: allowAll_def)
  have h2: "\<forall>m\<in>set exampleCandidates. answers allowAll m"
    by (simp add: answers_def allowAll_def)
  have h3: "\<forall>m\<in>set exampleCandidates.
      total (calculateScore (scoreCalculator ?d) m (contextAt 30000 exampleMetrics ?d)) =
        Some (?tot m)"
  proof
    fix m assume "m \<in> set exampleCandidates"
    then have "enqueuedAt (attributes m) \<le> currentTime (contextAt 30000 exampleMetrics ?d)"
      by (auto simp: exampleCandidates_def exampleMessage_def contextAt_def)
    from total_is_number [OF this, of "scoreCalculator ?d"]
    show "total (calculateScore (scoreCalculator ?d) m (contextAt 30000 exampleMetrics ?d)) =
        Some (?tot m)" by auto
  qed
  have ne: "filter (admissible allowAll) exampleCandidates \<noteq> []"
    by (simp add: exampleCandidates_def admissible_def allowAll_def)
  note t = select_first_maximum [OF h1 h2 h3, unfolded Let_def]
  from t ne show ?thesis by blast
qed

lemma reduceBest_NaN_first:
  "total (sm_score first) = None \<Longrightarrow> reduceBest first rest = first"
  unfolding reduceBest_def by (induction rest) simp_all

lemma first_NaN_candidate_wins:
  assumes "getMetrics rl = Inr rlMetrics"
    and "\<forall>m\<in>set (c # cs). answers rl m"
    and "admissible rl c"
    and "total (calculateScore (scoreCalculator d) c (contextAt now rlMetrics d)) = None"
  shows "selectedMessage (fst (selectOptimalMessage now rl (c # cs) d)) = Some c"
proof -
  from scoreCandidates_answers [OF assms(2), of "scoreCalculator d" "contextAt now rlMetrics d"]
  obtain scored where sc:
    "scoreCandidates rl (scoreCalculator d) (contextAt now rlMetrics d) (c # cs) = Inr scored"
    "map sm_message scored = filter (admissible rl) (c # cs)"
    "\<forall>s\<in>set scored. sm_score s =
        calculateScore (scoreCalculator d) (sm_message s) (contextAt now rlMetrics d)"
    by blast
  from sc(2) assms(3) obtain first rest where fr: "scored = first # rest" "sm_message first = c"
    by (cases scored) auto
  with sc(3) assms(4) have nan: "total (sm_score first) = None" by simp
  then have best: "reduceBest first rest = first" by (rule reduceBest_NaN_first)
  show ?thesis
    unfolding selectOptimalMessage_unfold [OF assms(1) sc(1)]
    by (simp add: fr best nan selectedMessage_def)
qed

lemma default_scoreCalculator:
  "scoreCalculator (newLLMQueueDispatcher defaultConfig) =
     \<lparr>calc_weights = getDefaultWeights, calc_customScorers = []\<rparr>"
  "scoreCalculator strictDispatcher =
     \<lparr>calc_weights = getDefaultWeights, calc_customScorers = []\<rparr>"
  by (simp_all add: strictDispatcher_def newLLMQueueDispatcher_def defaultConfig_def
        startPrefetchWorker_def newMessageScoreCalculator_def Let_def)

lemma lateUrgent_total:
  "total (calculateScore \<lparr>calc_weights = getDefaultWeights, calc_customScorers = []\<rparr>
            lateUrgent (contextAt 30000 exampleMetrics d)) = None"
  by (simp add: calculateScore_def applyWeights_def baseScores_def breakdownValues_def
        num_plus_def num_times_def calculateWaitTimeScore_def contextAt_def lateUrgent_def
        exampleMessage_def exampleRequest_def Let_def)

lemma onTimeUrgent_total:
  "total (calculateScore \<lparr>calc_weights = getDefaultWeights, calc_customScorers = []\<rparr>
            (exampleMessage ''urgent'' URGENT 100) (contextAt 30000 exampleMetrics d)) =
     Some (323 / 420)"
  by (simp add: calculateScore_def applyWeights_def baseScores_def breakdownValues_def
        num_plus_def num_times_def calculateWaitTimeScore_def calculateEfficiencyScore_def
        calculateTokenFitScore_def calculateProcessingTimeScore_def normalizeProcessingTime_def
        calculateRetryPenalty_def getDefaultWeights_def contextAt_def
        exampleMetrics_def exampleWindow_def exampleMessage_def exampleRequest_def Let_def)

text \<open>
  C3 fails on the code. An URGENT candidate whose \<open>enqueuedAt\<close> is later than the time of
  the selection has a negative wait time; \<open>Math.pow\<close> of it is NaN, and so is its total.
  Standing first among the candidates it is returned, although the admissible candidate
  after it has the total 323/420, and also under \<open>minScoreThreshold: 0.9\<close>, which is above
  every total: no comparison with NaN holds, neither in the scan for the maximum nor in
  the threshold test.
\<close>

theorem nan_total_wins_selection:
  "admissible allowAll lateUrgent \<and>
   admissible allowAll (exampleMessage ''urgent'' URGENT 100) \<and>
   total (calculateScore (scoreCalculator strictDispatcher) lateUrgent
            (contextAt 30000 exampleMetrics strictDispatcher)) = None \<and>
   total (calculateScore (scoreCalculator strictDispatcher) (exampleMessage ''urgent'' URGENT 100)
            (contextAt 30000 exampleMetrics strictDispatcher)) = Some (323 / 420) \<and>
   selectedMessage (fst (selectOptimalMessage 30000 allowAll
       [lateUrgent, exampleMessage ''urgent'' URGENT 100]
       (newLLMQueueDispatcher defaultConfig))) = Some lateUrgent \<and>
   minScoreThreshold (config strictDispatcher) = Some 0.9 \<and>
   selectedMessage (fst (selectOptimalMessage 30000 allowAll
       [lateUrgent, exampleMessage ''urgent'' URGENT 100] strictDispatcher)) = Some lateUrgent"
proof -
  have m: "getMetrics allowAll = Inr exampleMetrics"
    by (simp add: allowAll_def)
  have a: "\<forall>m\<in>set [lateUrgent, exampleMessage ''urgent'' URGENT 100]. answers allowAll m"
    by (simp add: answers_def allowAll_def)
  have adm: "admissible allowAll lateUrgent"
    "admissible allowAll (exampleMessage ''urgent'' URGENT 100)"
    by (simp_all add: admissible_def allowAll_def)
  have n1: "total (calculateScore (scoreCalculator (newLLMQueueDispatcher defaultConfig)) lateUrgent
            (contextAt 30000 exampleMetrics (newLLMQueueDispatcher defaultConfig))) = None"
    unfolding default_scoreCalculator by (rule lateUrgent_total)
  have n2: "total (calculateScore (scoreCalculator strictDispatcher) lateUrgent
            (contextAt 30000 exampleMetrics strictDispatcher)) = None"
    unfolding default_scoreCalculator by (rule lateUrgent_total)
  have t2: "total (calculateScore (scoreCalculator strictDispatcher)
            (exampleMessage ''urgent'' URGENT 100)
            (contextAt 30000 exampleMetrics strictDispatcher)) = Some (323 / 420)"
    unfolding default_scoreCalculator by (rule onTimeUrgent_total)
  have c: "minScoreThreshold (config strictDispatcher) = Some 0.9"
    by (simp add: strictDispatcher_def newLLMQueueDispatcher_def defaultConfig_def
          startPrefetchWorker_def Let_def)
  from adm n2 t2 c
    first_NaN_candidate_wins [OF m a adm(1) n1]
    first_NaN_candidate_wins [OF m a adm(1) n2]
  show ?thesis by simp
qed


section \<open>Properties of the dispatcher\<close>

lemma prepareForProcessing_returns:
  "\<exists>pm d'. prepareForProcessing now m rl d = (Inr pm, d')"
  by (simp add: prepareForProcessing_def Let_def)

lemma fetchAndProcessDirectly_returns:
  "\<exists>r d' s'. fetchAndProcessDirectly storage now rl (d, s) = (Inr r, d', s')"
proof -
  obtain res s1 where dq: "sa_dequeue storage 10 (d_visibilityTimeout d) s = (res, s1)"
    by (cases "sa_dequeue storage 10 (d_visibilityTimeout d) s")
  show ?thesis
  proof (cases res)
    case (Inl e)
    with dq show ?thesis by (simp add: fetchAndProcessDirectly_def)
  next
    case (Inr ms)
    show ?thesis
    proof (cases ms)
      case Nil
      with dq Inr show ?thesis by (simp add: fetchAndProcessDirectly_def)
    next
      case (Cons m ms')
      obtain sel d1 where so: "selectOptimalMessage now rl (m # ms') d = (sel, d1)"
        by (cases "selectOptimalMessage now rl (m # ms') d")
      show ?thesis
      proof (cases sel)
        case (Inl e)
        with dq Inr Cons so show ?thesis by (simp add: fetchAndProcessDirectly_def)
      next
        case sel_ok: (Inr choice)
        show ?thesis
        proof (cases choice)
          case None
          with dq Inr Cons so sel_ok show ?thesis by (simp add: fetchAndProcessDirectly_def)
        next
          case (Some selection)
          from prepareForProcessing_returns [of now "sel_message selection" rl d1]
          obtain pm d2 where "prepareForProcessing now (sel_message selection) rl d1 = (Inr pm, d2)"
            by blast
          with dq Inr Cons so sel_ok Some show ?thesis
            by (simp add: fetchAndProcessDirectly_def)
        qed
      qed
    qed
  qed
qed

text \<open>
  C4. Whatever the storage adapter and the rate limiter do, throwing included, the
  promise returned by \<open>dequeue\<close> is never rejected: it carries a handle or null.
\<close>

theorem dequeue_never_throws:
  "\<exists>r d' s'. dispatcher_dequeue storage now rateLimiter (d, s) = (Inr r, d', s')"
proof -
  obtain d1 s1 where pre:
    "(if buffer_size (prefetchBuffer d) < 10 \<and> \<not> prefetchEnabled (config d)
      then prefetchMessages storage (d, s) else (d, s)) = (d1, s1)"
    by (cases "if buffer_size (prefetchBuffer d) < 10 \<and> \<not> prefetchEnabled (config d)
      then prefetchMessages storage (d, s) else (d, s)")
  show ?thesis
  proof (cases "length (getCandidatesFromBuffer d1) = 0 \<and> \<not> prefetchEnabled (config d1)")
    case True
    from fetchAndProcessDirectly_returns [of storage now rateLimiter d1 s1]
    obtain r d2 s2 where "fetchAndProcessDirectly storage now rateLimiter (d1, s1) = (Inr r, d2, s2)"
      by blast
    with pre True show ?thesis by (simp add: dispatcher_dequeue_def Let_def)
  next
    case False
    obtain sel d2 where so:
      "selectOptimalMessage now rateLimiter (getCandidatesFromBuffer d1) d1 = (sel, d2)"
      by (cases "selectOptimalMessage now rateLimiter (getCandidatesFromBuffer d1) d1")
    show ?thesis
    proof (cases sel)
      case (Inl e)
      with pre False so show ?thesis by (auto simp: dispatcher_dequeue_def Let_def)
    next
      case sel_ok: (Inr choice)
      show ?thesis
      proof (cases choice)
        case None
        with pre False so sel_ok show ?thesis by (auto simp: dispatcher_dequeue_def Let_def)
      next
        case (Some selection)
        from prepareForProcessing_returns
        obtain pm d3 where "prepareForProcessing now (sel_message selection) rateLimiter
                          (d2\<lparr>prefetchBuffer :=
                                 snd (buffer_remove (sel_message selection) (prefetchBuffer d2))\<rparr>)
                          = (Inr pm, d3)"
          by blast
        with pre False so sel_ok Some show ?thesis
          by (auto simp: dispatcher_dequeue_def Let_def)
      qed
    qed
  qed
qed


theorem dequeue_never_throws_witness:
  "\<exists>r d' s'. dispatcher_dequeue throwingAdapter 1000 throwingLimiter
      (newLLMQueueDispatcher defaultConfig, ()) = (Inr r, d', s')"
  by (rule dequeue_never_throws)

lemma scoreCandidates_deny:
  assumes "\<forall>tokens. \<exists>cp. canProcess rl tokens = Inr cp \<and> \<not> allowed cp"
  shows "scoreCandidates rl calc ctx cands = Inr []"
proof (induction cands)
  case Nil
  then show ?case by simp
next
  case (Cons m ms)
  from assms obtain cp where
    "canProcess rl (estimated (tokenInfo (msg_payload m))) = Inr cp" "\<not> allowed cp"
    by blast
  with Cons show ?case by simp
qed

lemma selectOptimalMessage_inFlight:
  "inFlightMessages (snd (selectOptimalMessage now rl cands d)) = inFlightMessages d"
  by (simp add: selectOptimalMessage_def Let_def split: sum.splits prod.splits list.splits)

lemma selectOptimalMessage_deny:
  assumes "\<forall>tokens. \<exists>cp. canProcess rl tokens = Inr cp \<and> \<not> allowed cp"
  shows "\<forall>sel. fst (selectOptimalMessage now rl cands d) \<noteq> Inr (Some sel)"
  using scoreCandidates_deny [OF assms]
  by (simp add: selectOptimalMessage_def Let_def split: sum.splits prod.splits)

lemma logTo_inFlight: "inFlightMessages (logTo level text d) = inFlightMessages d"
  by (simp add: logTo_def)

lemma prefetchMessages_inFlight:
  "inFlightMessages (fst (prefetchMessages storage (d, s))) = inFlightMessages d"
  by (simp add: prefetchMessages_def Let_def logTo_inFlight split: sum.splits prod.splits)

lemma fetchAndProcessDirectly_deny:
  assumes "\<forall>tokens. \<exists>cp. canProcess rl tokens = Inr cp \<and> \<not> allowed cp"
  shows "fst (fetchAndProcessDirectly storage now rl (d, s)) = Inr None \<and>
         inFlightMessages (fst (snd (fetchAndProcessDirectly storage now rl (d, s)))) =
           inFlightMessages d"
proof -
  obtain res s1 where dq: "sa_dequeue storage 10 (d_visibilityTimeout d) s = (res, s1)"
    by (cases "sa_dequeue storage 10 (d_visibilityTimeout d) s")
  show ?thesis
  proof (cases res)
    case (Inl e)
    with dq show ?thesis by (simp add: fetchAndProcessDirectly_def logTo_inFlight)
  next
    case (Inr ms)
    show ?thesis
    proof (cases ms)
      case Nil
      with dq Inr show ?thesis by (simp add: fetchAndProcessDirectly_def)
    next
      case (Cons m ms')
      obtain sel d1 where so: "selectOptimalMessage now rl (m # ms') d = (sel, d1)"
        by (cases "selectOptimalMessage now rl (m # ms') d")
      from selectOptimalMessage_inFlight [of now rl "m # ms'" d] so
      have inf: "inFlightMessages d1 = inFlightMessages d" by simp
      from selectOptimalMessage_deny [OF assms, of now "m # ms'" d] so
      have "sel = Inr None \<or> (\<exists>e. sel = Inl e)"
        by (cases sel) (auto simp: option.exhaust)
      then show ?thesis
        using dq Inr Cons so inf
        by (auto simp: fetchAndProcessDirectly_def logTo_inFlight)
    qed
  qed
qed

lemma dispatcher_dequeue_deny:
  assumes "\<forall>tokens. \<exists>cp. canProcess rl tokens = Inr cp \<and> \<not> allowed cp"
  shows "fst (dispatcher_dequeue storage now rl (d, s)) = Inr None \<and>
         inFlightMessages (fst (snd (dispatcher_dequeue storage now rl (d, s)))) =
           inFlightMessages d"
proof -
  obtain d1 s1 where pre:
    "(if buffer_size (prefetchBuffer d) < 10 \<and> \<not> prefetchEnabled (config d)
      then prefetchMessages storage (d, s) else (d, s)) = (d1, s1)"
    by (cases "if buffer_size (prefetchBuffer d) < 10 \<and> \<not> prefetchEnabled (config d)
      then prefetchMessages storage (d, s) else (d, s)")
  have inf1: "inFlightMessages d1 = inFlightMessages d"
    using pre prefetchMessages_inFlight [of storage d s]
    by (auto split: if_splits)
  show ?thesis
  proof (cases "length (getCandidatesFromBuffer d1) = 0 \<and> \<not> prefetchEnabled (config d1)")
    case True
    obtain r d2 s2 where f: "fetchAndProcessDirectly storage now rl (d1, s1) = (r, d2, s2)"
      by (cases "fetchAndProcessDirectly storage now rl (d1, s1)")
    with fetchAndProcessDirectly_deny [OF assms, of storage now d1 s1]
    have "r = Inr None" "inFlightMessages d2 = inFlightMessages d1" by simp_all
    with pre True f inf1 show ?thesis by (simp add: dispatcher_dequeue_def Let_def)
  next
    case False
    obtain sel d2 where so:
      "selectOptimalMessage now rl (getCandidatesFromBuffer d1) d1 = (sel, d2)"
      by (cases "selectOptimalMessage now rl (getCandidatesFromBuffer d1) d1")
    from selectOptimalMessage_inFlight [of now rl "getCandidatesFromBuffer d1" d1] so
    have inf: "inFlightMessages d2 = inFlightMessages d1" by simp
    from selectOptimalMessage_deny [OF assms, of now "getCandidatesFromBuffer d1" d1] so
    have "sel = Inr None \<or> (\<exists>e. sel = Inl e)"
      by (cases sel) (auto simp: option.exhaust)
    then show ?thesis
      using pre False so inf inf1
      by (auto simp: dispatcher_dequeue_def Let_def logTo_inFlight)
  qed
qed


lemma prefetchMessages_storage:
  "snd (prefetchMessages storage (d, s)) = s \<or>
   snd (prefetchMessages storage (d, s)) =
     snd (sa_dequeue storage (needed d) (d_visibilityTimeout d) s)"
  by (simp add: prefetchMessages_def Let_def split: sum.splits prod.splits)

lemma prefetchMessages_timeout:
  "d_visibilityTimeout (fst (prefetchMessages storage (d, s))) = d_visibilityTimeout d"
  by (simp add: prefetchMessages_def Let_def logTo_def split: sum.splits prod.splits)

lemma fetchAndProcessDirectly_storage:
  "snd (snd (fetchAndProcessDirectly storage now rl (d, s))) =
     snd (sa_dequeue storage 10 (d_visibilityTimeout d) s)"
  by (simp add: fetchAndProcessDirectly_def Let_def
      split: sum.splits prod.splits list.splits option.splits)

lemma dispatcher_dequeue_storage:
  "snd (snd (dispatcher_dequeue storage now rl (d, s))) =
     (case (if buffer_size (prefetchBuffer d) < 10 \<and> \<not> prefetchEnabled (config d)
            then prefetchMessages storage (d, s) else (d, s)) of
        (d1, s1) \<Rightarrow>
          if length (getCandidatesFromBuffer d1) = 0 \<and> \<not> prefetchEnabled (config d1)
          then snd (sa_dequeue storage 10 (d_visibilityTimeout d1) s1)
          else s1)"
proof -
  obtain d1 s1 where pre:
    "(if buffer_size (prefetchBuffer d) < 10 \<and> \<not> prefetchEnabled (config d)
      then prefetchMessages storage (d, s) else (d, s)) = (d1, s1)"
    by (cases "if buffer_size (prefetchBuffer d) < 10 \<and> \<not> prefetchEnabled (config d)
      then prefetchMessages storage (d, s) else (d, s)")
  show ?thesis
  proof (cases "length (getCandidatesFromBuffer d1) = 0 \<and> \<not> prefetchEnabled (config d1)")
    case True
    with pre fetchAndProcessDirectly_storage [of storage now rl d1 s1] show ?thesis
      by (auto simp: dispatcher_dequeue_def Let_def split: sum.splits prod.splits)
  next
    case False
    with pre show ?thesis
      by (auto simp: dispatcher_dequeue_def Let_def
          split: sum.splits prod.splits option.splits)
  qed
qed

lemma oneVisible_eval:
  "oneVisible =
     \<lparr>messages = [(''msg-1'', \<lparr>im_message = \<lparr>msg_id = ''msg-1'',
          msg_payload = exampleRequest ''test-1'' HIGH 100,
          attributes = \<lparr>messageId = ''msg-1'', receiptHandle = ''receipt-msg-1-0'', enqueuedAt = 0,
                         receiveCount = 0, firstReceivedAt = None\<rparr>\<rparr>,
        visibilityTimeout = None, deleteAt = None\<rparr>)],
      inFlight = [], messageCounter = 1, st_createdAt = 0, lastModified = 0\<rparr>"
  by (simp add: oneVisible_def storage_enqueue_def newInMemoryStorage_def Let_def
        string_of_nat.simps string_of_int_def)

lemma dequeue_oneVisible:
  "storage_dequeue 1000 50 30 oneVisible =
     ([\<lparr>msg_id = ''msg-1'', msg_payload = exampleRequest ''test-1'' HIGH 100,
        attributes = \<lparr>messageId = ''msg-1'', receiptHandle = ''receipt-msg-1-1000'',
                       enqueuedAt = 0, receiveCount = 1, firstReceivedAt = Some 1000\<rparr>\<rparr>],
      \<lparr>messages = [(''msg-1'', \<lparr>im_message = \<lparr>msg_id = ''msg-1'',
          msg_payload = exampleRequest ''test-1'' HIGH 100,
          attributes = \<lparr>messageId = ''msg-1'', receiptHandle = ''receipt-msg-1-1000'',
                         enqueuedAt = 0, receiveCount = 1, firstReceivedAt = Some 1000\<rparr>\<rparr>,
        visibilityTimeout = Some 31000, deleteAt = None\<rparr>)],
      inFlight = [(''receipt-msg-1-1000'', ''msg-1'')], messageCounter = 1,
      st_createdAt = 0, lastModified = 0\<rparr>)"
  by (simp add: oneVisible_eval storage_dequeue_def truthy_def Let_def
        string_of_nat.simps string_of_int_def)

lemma freshDispatcher_eval:
  "buffer_size (prefetchBuffer (newLLMQueueDispatcher defaultConfig)) = 0"
  "prefetchEnabled (config (newLLMQueueDispatcher defaultConfig)) = False"
  "needed (newLLMQueueDispatcher defaultConfig) = 50"
  "d_visibilityTimeout (newLLMQueueDispatcher defaultConfig) = 30"
  "prefetchBuffer (newLLMQueueDispatcher defaultConfig) = \<lparr>buffer = [], maxSize = 50\<rparr>"
  "config (newLLMQueueDispatcher defaultConfig) = defaultConfig"
  by (simp_all add: newLLMQueueDispatcher_def defaultConfig_def prefetchEnabled_def
        newPriorityBuffer_def buffer_size_def needed_def js_or_def Let_def)

lemma defaultConfig_fields:
  "bufferSize defaultConfig = None" "enablePrefetch defaultConfig = None"
  "prefetchInterval defaultConfig = None" "maxCandidatesToEvaluate defaultConfig = None"
  "minScoreThreshold defaultConfig = None"
  by (simp_all add: defaultConfig_def)

lemma prefetch_oneVisible:
  "snd (prefetchMessages (inMemoryAdapter 1000) (newLLMQueueDispatcher defaultConfig, oneVisible)) =
     snd (storage_dequeue 1000 50 30 oneVisible) \<and>
   getCandidatesFromBuffer
     (fst (prefetchMessages (inMemoryAdapter 1000) (newLLMQueueDispatcher defaultConfig, oneVisible)))
     \<noteq> [] \<and>
   config (fst (prefetchMessages (inMemoryAdapter 1000) (newLLMQueueDispatcher defaultConfig, oneVisible)))
     = defaultConfig"
  by (simp add: prefetchMessages_def freshDispatcher_eval inMemoryAdapter_def dequeue_oneVisible
      addAll_def buffer_add_def sortBuffer_def push_def getCandidatesFromBuffer_def
      peekByPriority_def logTo_def js_or_def defaultConfig_fields Let_def)

text \<open>
  C2, as stated, fails: with a rate limiter that denies every request, \<open>dequeue\<close> on a
  storage holding one visible message returns null, yet the prefetch has dequeued the
  message from storage: its receive count went from 0 to 1 and it is hidden.
\<close>

theorem deny_all_counterexample:
  "canProcess denyAll 100 = Inr \<lparr>allowed = False, availableIn = Some 5000\<rparr> \<and>
   fst afterDeniedDequeue = Inr None \<and>
   receiveCountOf oneVisible ''msg-1'' = Some 0 \<and>
   \<not> hiddenAt 1000 oneVisible ''msg-1'' \<and>
   receiveCountOf (snd (snd afterDeniedDequeue)) ''msg-1'' = Some 1 \<and>
   hiddenAt 1000 (snd (snd afterDeniedDequeue)) ''msg-1''"
proof -
  have deny: "\<forall>tokens. \<exists>cp. canProcess denyAll tokens = Inr cp \<and> \<not> allowed cp"
    by (simp add: denyAll_def)
  have r: "fst afterDeniedDequeue = Inr None"
    unfolding afterDeniedDequeue_def
    using dispatcher_dequeue_deny [OF deny, of "inMemoryAdapter 1000" 1000
        "newLLMQueueDispatcher defaultConfig" oneVisible] by simp
  obtain d1 s1 where pm:
    "prefetchMessages (inMemoryAdapter 1000) (newLLMQueueDispatcher defaultConfig, oneVisible) = (d1, s1)"
    by (cases "prefetchMessages (inMemoryAdapter 1000) (newLLMQueueDispatcher defaultConfig, oneVisible)")
  with prefetch_oneVisible have p1: "s1 = snd (storage_dequeue 1000 50 30 oneVisible)"
    and p2: "getCandidatesFromBuffer d1 \<noteq> []" by simp_all
  have pre: "(if buffer_size (prefetchBuffer (newLLMQueueDispatcher defaultConfig)) < 10 \<and>
                 \<not> prefetchEnabled (config (newLLMQueueDispatcher defaultConfig))
              then prefetchMessages (inMemoryAdapter 1000)
                     (newLLMQueueDispatcher defaultConfig, oneVisible)
              else (newLLMQueueDispatcher defaultConfig, oneVisible)) = (d1, s1)"
    by (simp add: freshDispatcher_eval pm buffer_size_def prefetchEnabled_def defaultConfig_fields)
  have s: "snd (snd afterDeniedDequeue) = snd (storage_dequeue 1000 50 30 oneVisible)"
    unfolding afterDeniedDequeue_def dispatcher_dequeue_storage pre
    using p1 p2 by simp
  show ?thesis
    unfolding s r dequeue_oneVisible
    by (simp add: receiveCountOf_def hiddenAt_def truthy_def oneVisible_eval denyAll_def)
qed


text \<open>
  C2, amended. With a rate limiter whose \<open>canProcess\<close> returns \<open>allowed = false\<close> on every
  call, over any storage adapter, \<open>dequeue\<close> returns null and leaves the dispatcher's
  in-flight index as it was; the storage is reached only through the \<open>dequeue\<close> calls of
  the prefetch (limit \<open>needed\<close>) and of the direct fetch (limit 10), which precede the
  admission check.
\<close>

theorem deny_all_dequeue_returns_null:
  assumes "\<forall>tokens. \<exists>cp. canProcess rl tokens = Inr cp \<and> \<not> allowed cp"
  shows "fst (dispatcher_dequeue storage now rl (d, s)) = Inr None \<and>
         inFlightMessages (fst (snd (dispatcher_dequeue storage now rl (d, s)))) =
           inFlightMessages d \<and>
         snd (snd (dispatcher_dequeue storage now rl (d, s))) \<in>
           {s,
            snd (sa_dequeue storage (needed d) (d_visibilityTimeout d) s),
            snd (sa_dequeue storage 10 (d_visibilityTimeout d) s),
            snd (sa_dequeue storage 10 (d_visibilityTimeout d)
                   (snd (sa_dequeue storage (needed d) (d_visibilityTimeout d) s)))}"
proof -
  obtain d1 s1 where pm: "prefetchMessages storage (d, s) = (d1, s1)"
    by (cases "prefetchMessages storage (d, s)")
  with prefetchMessages_storage [of storage d s] prefetchMessages_timeout [of storage d s]
  have s1: "s1 = s \<or> s1 = snd (sa_dequeue storage (needed d) (d_visibilityTimeout d) s)"
    and t1: "d_visibilityTimeout d1 = d_visibilityTimeout d" by simp_all
  have "snd (snd (dispatcher_dequeue storage now rl (d, s))) \<in>
           {s,
            snd (sa_dequeue storage (needed d) (d_visibilityTimeout d) s),
            snd (sa_dequeue storage 10 (d_visibilityTimeout d) s),
            snd (sa_dequeue storage 10 (d_visibilityTimeout d)
                   (snd (sa_dequeue storage (needed d) (d_visibilityTimeout d) s)))}"
    unfolding dispatcher_dequeue_storage
    using s1 t1 by (auto simp: pm)
  with dispatcher_dequeue_deny [OF assms, of storage now d s] show ?thesis by blast
qed

theorem deny_all_dequeue_returns_null_witness:
  "(\<forall>tokens. \<exists>cp. canProcess denyAll tokens = Inr cp \<and> \<not> allowed cp) \<and>
   fst (dispatcher_dequeue (inMemoryAdapter 1000) 1000 denyAll
          (newLLMQueueDispatcher defaultConfig, oneVisible)) = Inr None \<and>
   inFlightMessages (fst (snd (dispatcher_dequeue (inMemoryAdapter 1000) 1000 denyAll
          (newLLMQueueDispatcher defaultConfig, oneVisible)))) = []"
proof -
  have deny: "\<forall>tokens. \<exists>cp. canProcess denyAll tokens = Inr cp \<and> \<not> allowed cp"
    by (simp add: denyAll_def)
  have "inFlightMessages (newLLMQueueDispatcher defaultConfig) = []"
    by (simp add: newLLMQueueDispatcher_def Let_def startPrefetchWorker_def)
  with deny deny_all_dequeue_returns_null [OF deny, of "inMemoryAdapter 1000" 1000
      "newLLMQueueDispatcher defaultConfig" oneVisible]
  show ?thesis by simp
qed


lemma needed_configured:
  "bufferSize (config d) = Some b \<Longrightarrow> b \<noteq> 0 \<Longrightarrow> needed d = int b"
  by (simp add: needed_def js_or_def)

lemma needed_default:
  "bufferSize (config d) = None \<or> bufferSize (config d) = Some 0 \<Longrightarrow>
   needed d = 50 - int (buffer_size (prefetchBuffer d))"
  by (auto simp: needed_def js_or_def)

text \<open>
  C1 fails on the code. With \<open>bufferSize: 5\<close> and three buffered messages the prefetch
  asks the storage for 5 messages, not for at most 5 - 3 = 2; with five buffered messages
  (a full buffer) it still issues a \<open>dequeue\<close>, again with limit 5.
\<close>

theorem prefetch_limit_ignores_buffer_size:
  "buffer_size (prefetchBuffer threeBuffered) = 3 \<and>
   maxSize (prefetchBuffer threeBuffered) = 5 \<and>
   needed threeBuffered = 5 \<and>
   snd (prefetchMessages recordingAdapter (threeBuffered, [])) = [(5, 30)] \<and>
   buffer_size (prefetchBuffer fiveBuffered) = 5 \<and>
   maxSize (prefetchBuffer fiveBuffered) = 5 \<and>
   needed fiveBuffered = 5 \<and>
   snd (prefetchMessages recordingAdapter (fiveBuffered, [])) = [(5, 30)]"
proof -
  have c: "config threeBuffered = defaultConfig\<lparr>bufferSize := Some 5\<rparr>"
    "config fiveBuffered = defaultConfig\<lparr>bufferSize := Some 5\<rparr>"
    "d_visibilityTimeout threeBuffered = 30" "d_visibilityTimeout fiveBuffered = 30"
    by (simp_all add: threeBuffered_def fiveBuffered_def newLLMQueueDispatcher_def
          startPrefetchWorker_def Let_def)
  have n: "needed threeBuffered = 5" "needed fiveBuffered = 5"
    by (simp_all add: needed_configured c)
  have b: "buffer_size (prefetchBuffer threeBuffered) = 3"
    "maxSize (prefetchBuffer threeBuffered) = 5"
    "buffer_size (prefetchBuffer fiveBuffered) = 5"
    "maxSize (prefetchBuffer fiveBuffered) = 5"
    by (simp_all add: threeBuffered_def fiveBuffered_def fullBuffer_def buffer_size_def)
  have p: "snd (prefetchMessages recordingAdapter (threeBuffered, [])) = [(5, 30)]"
    "snd (prefetchMessages recordingAdapter (fiveBuffered, [])) = [(5, 30)]"
    by (simp_all add: prefetchMessages_def n c recordingAdapter_def addAll_def Let_def)
  from n b p show ?thesis by simp
qed



section \<open>Properties of the in-memory storage\<close>

lemma findAvailable_receiveCount:
  assumes "\<forall>m\<in>set results. 1 \<le> receiveCount (attributes m)"
  shows "\<forall>m\<in>set (fst (findAvailable now limit vts entries results s)).
           1 \<le> receiveCount (attributes m)"
  using assms
  by (induction now limit vts entries results s rule: findAvailable.induct)
     (auto simp: Let_def)

lemma storage_dequeue_receiveCount:
  "\<forall>m\<in>set (fst (storage_dequeue now limit vts s)). 1 \<le> receiveCount (attributes m)"
  unfolding storage_dequeue_def Let_def
  by (rule findAvailable_receiveCount) simp

lemma storage_deleteMessage_unknown:
  "map_of (inFlight s) handle = None \<Longrightarrow>
   storage_deleteMessage now handle s = (Inl (notFound handle), s)"
  by (simp add: storage_deleteMessage_def)

lemma storage_deleteMessage_known:
  "map_of (inFlight s) handle = Some mid \<Longrightarrow>
   fst (storage_deleteMessage now handle s) = Inr () \<and>
   map_of (messages (snd (storage_deleteMessage now handle s))) mid = None \<and>
   map_of (inFlight (snd (storage_deleteMessage now handle s))) handle = None"
  by (simp add: storage_deleteMessage_def delete_conv)

lemma storage_deleteMessage_twice:
  assumes "fst (storage_deleteMessage now handle s) = Inr ()"
  shows "fst (storage_deleteMessage now' handle (snd (storage_deleteMessage now handle s))) =
           Inl (notFound handle)"
proof (cases "map_of (inFlight s) handle")
  case None
  with assms show ?thesis by (simp add: storage_deleteMessage_def)
next
  case (Some mid)
  from storage_deleteMessage_known [OF Some, of now]
  have "map_of (inFlight (snd (storage_deleteMessage now handle s))) handle = None" by simp
  then show ?thesis by (simp add: storage_deleteMessage_unknown)
qed

lemma enqueuedAt1000_eval:
  "enqueuedAt1000 =
     (\<lparr>msg_id = ''msg-1'', msg_payload = exampleRequest ''test-1'' NORMAL 100,
       attributes = \<lparr>messageId = ''msg-1'', receiptHandle = ''receipt-msg-1-1000'',
                      enqueuedAt = 1000, receiveCount = 0, firstReceivedAt = None\<rparr>\<rparr>,
      \<lparr>messages = [(''msg-1'', \<lparr>im_message = \<lparr>msg_id = ''msg-1'',
          msg_payload = exampleRequest ''test-1'' NORMAL 100,
          attributes = \<lparr>messageId = ''msg-1'', receiptHandle = ''receipt-msg-1-1000'',
                         enqueuedAt = 1000, receiveCount = 0, firstReceivedAt = None\<rparr>\<rparr>,
        visibilityTimeout = None, deleteAt = None\<rparr>)],
      inFlight = [], messageCounter = 1, st_createdAt = 1000, lastModified = 1000\<rparr>)"
  by (simp add: enqueuedAt1000_def storage_enqueue_def newInMemoryStorage_def Let_def
        string_of_nat.simps string_of_int_def)

lemma sameMs_dequeue_eval:
  "storage_dequeue 1000 1 30 (snd enqueuedAt1000) =
     ([\<lparr>msg_id = ''msg-1'', msg_payload = exampleRequest ''test-1'' NORMAL 100,
        attributes = \<lparr>messageId = ''msg-1'', receiptHandle = ''receipt-msg-1-1000'',
                       enqueuedAt = 1000, receiveCount = 1, firstReceivedAt = Some 1000\<rparr>\<rparr>],
      \<lparr>messages = [(''msg-1'', \<lparr>im_message = \<lparr>msg_id = ''msg-1'',
          msg_payload = exampleRequest ''test-1'' NORMAL 100,
          attributes = \<lparr>messageId = ''msg-1'', receiptHandle = ''receipt-msg-1-1000'',
                         enqueuedAt = 1000, receiveCount = 1, firstReceivedAt = Some 1000\<rparr>\<rparr>,
        visibilityTimeout = Some 31000, deleteAt = None\<rparr>)],
      inFlight = [(''receipt-msg-1-1000'', ''msg-1'')], messageCounter = 1,
      st_createdAt = 1000, lastModified = 1000\<rparr>)"
  by (simp add: enqueuedAt1000_eval storage_dequeue_def truthy_def Let_def
        string_of_nat.simps string_of_int_def)

lemma firstDelivery_eval:
  "firstDelivery =
     ([\<lparr>msg_id = ''msg-1'', msg_payload = exampleRequest ''test-1'' HIGH 100,
        attributes = \<lparr>messageId = ''msg-1'', receiptHandle = ''receipt-msg-1-1000'',
                       enqueuedAt = 0, receiveCount = 1, firstReceivedAt = Some 1000\<rparr>\<rparr>],
      \<lparr>messages = [(''msg-1'', \<lparr>im_message = \<lparr>msg_id = ''msg-1'',
          msg_payload = exampleRequest ''test-1'' HIGH 100,
          attributes = \<lparr>messageId = ''msg-1'', receiptHandle = ''receipt-msg-1-1000'',
                         enqueuedAt = 0, receiveCount = 1, firstReceivedAt = Some 1000\<rparr>\<rparr>,
        visibilityTimeout = Some 2000, deleteAt = None\<rparr>)],
      inFlight = [(''receipt-msg-1-1000'', ''msg-1'')], messageCounter = 1,
      st_createdAt = 0, lastModified = 0\<rparr>)"
  by (simp add: firstDelivery_def oneVisible_eval storage_dequeue_def truthy_def Let_def
        string_of_nat.simps string_of_int_def)

lemma secondDelivery_eval:
  "secondDelivery =
     ([\<lparr>msg_id = ''msg-1'', msg_payload = exampleRequest ''test-1'' HIGH 100,
        attributes = \<lparr>messageId = ''msg-1'', receiptHandle = ''receipt-msg-1-2000'',
                       enqueuedAt = 0, receiveCount = 2, firstReceivedAt = Some 1000\<rparr>\<rparr>],
      \<lparr>messages = [(''msg-1'', \<lparr>im_message = \<lparr>msg_id = ''msg-1'',
          msg_payload = exampleRequest ''test-1'' HIGH 100,
          attributes = \<lparr>messageId = ''msg-1'', receiptHandle = ''receipt-msg-1-2000'',
                         enqueuedAt = 0, receiveCount = 2, firstReceivedAt = Some 1000\<rparr>\<rparr>,
        visibilityTimeout = Some 32000, deleteAt = None\<rparr>)],
      inFlight = [(''receipt-msg-1-1000'', ''msg-1''), (''receipt-msg-1-2000'', ''msg-1'')],
      messageCounter = 1, st_createdAt = 0, lastModified = 0\<rparr>)"
  by (simp add: secondDelivery_def firstDelivery_eval storage_dequeue_def reapExpired_def
        truthy_def Let_def string_of_nat.simps string_of_int_def)


text \<open>
  C6 fails on the code. A message enqueued and first delivered within the same
  millisecond (here 1000) is returned with receive count 1 but with the very receipt
  handle it was given at enqueue, since a handle is built from the id and the clock
  reading only. And a handle of an earlier delivery stays valid: after a delivery at
  time 1000 with a timeout of one second and a second delivery at time 2000, the first
  handle is still accepted by \<open>updateVisibilityTimeout\<close>.
\<close>

theorem dequeue_reuses_receipt_handle:
  "receiptHandle (attributes (fst enqueuedAt1000)) = ''receipt-msg-1-1000'' \<and>
   map msg_id (fst (storage_dequeue 1000 1 30 (snd enqueuedAt1000))) = [''msg-1''] \<and>
   map receiveCount (map attributes (fst (storage_dequeue 1000 1 30 (snd enqueuedAt1000)))) = [1] \<and>
   map receiptHandle (map attributes (fst (storage_dequeue 1000 1 30 (snd enqueuedAt1000)))) =
     [''receipt-msg-1-1000''] \<and>
   map receiptHandle (map attributes (fst firstDelivery)) = [''receipt-msg-1-1000''] \<and>
   map receiptHandle (map attributes (fst secondDelivery)) = [''receipt-msg-1-2000''] \<and>
   fst (storage_updateVisibilityTimeout 2000 ''receipt-msg-1-1000'' 60 (snd secondDelivery)) =
     Inr ()"
  unfolding sameMs_dequeue_eval firstDelivery_eval secondDelivery_eval
  by (simp add: enqueuedAt1000_eval storage_updateVisibilityTimeout_def)

text \<open>
  C7 fails on the code. In the storage reached by a delivery at time 1000 with a timeout
  of one second and a second delivery at time 2000, the message's current handle is the
  second one, yet \<open>deleteMessage\<close> with the first, revoked handle succeeds and removes the
  message; and after a delete with the current handle, a delete with the revoked handle
  still returns without error.
\<close>

theorem stale_handle_deletes_message:
  "currentHandle (snd secondDelivery) ''msg-1'' = Some ''receipt-msg-1-2000'' \<and>
   fst (storage_deleteMessage 2000 ''receipt-msg-1-1000'' (snd secondDelivery)) = Inr () \<and>
   messages (snd (storage_deleteMessage 2000 ''receipt-msg-1-1000'' (snd secondDelivery))) = [] \<and>
   fst (storage_deleteMessage 2000 ''receipt-msg-1-1000''
          (snd (storage_deleteMessage 2000 ''receipt-msg-1-2000'' (snd secondDelivery)))) = Inr ()"
  by (simp add: secondDelivery_eval currentHandle_def storage_deleteMessage_def)



end
